theory Spec2Isabelle
  imports Complex_Main "HOL-Library.Char_ord" "HOL-Library.List_Lexorder"
    "HOL-Library.Multiset"
begin

section \<open>Python values and errors\<close>

text \<open>
  The nuisance utilities of C-PAC (\<^verbatim>\<open>CPAC/nuisance/utils.py\<close>) receive loosely typed
  arguments: a threshold may be \<^verbatim>\<open>None\<close>, a number or a string, a selector is a nested
  dictionary. They are modelled by one datatype of Python values. Floats are idealised as
  reals; a dictionary is an association list in insertion order.
\<close>

datatype pyval =
    PNone
  | PBool bool
  | PInt int
  | PFloat real
  | PStr string
  | PList "pyval list"
  | PDict "(string \<times> pyval) list"

text \<open>Python truthiness, as used by \<^verbatim>\<open>if x:\<close> and \<^verbatim>\<open>if not x:\<close>.\<close>

fun truthy :: "pyval \<Rightarrow> bool" where
  "truthy PNone = False"
| "truthy (PBool b) = b"
| "truthy (PInt i) = (i \<noteq> 0)"
| "truthy (PFloat x) = (x \<noteq> 0)"
| "truthy (PStr s) = (s \<noteq> [])"
| "truthy (PList xs) = (xs \<noteq> [])"
| "truthy (PDict kvs) = (kvs \<noteq> [])"

text \<open>Every \<^verbatim>\<open>raise\<close> of the source is a value; the tag names the message.\<close>

datatype vmsg =
    FD_file_not_found
  | FD_threshold_missing
  | FD_threshold_untranslatable
  | DVARS_file_not_found
  | DVARS_threshold_missing
  | DVARS_threshold_untranslatable
  | Improper_functional_file
  | Improper_mask_file
  | Threshold_not_specified
  | Threshold_conversion
  | Threshold_negative
  | Percentile_too_large
  | By_slice_not_boolean
  | Functional_not_4D
  | Mask_shape_mismatch

datatype error =
    ValueError vmsg
  | KeyError string
  | IOError string
  | NameError string
  | TypeError string
  | IndexError string
  | AttributeError string

section \<open>Censoring: \<^verbatim>\<open>find_offending_time_points\<close>\<close>

text \<open>
  A path argument is \<^verbatim>\<open>None\<close> or a string; \<^verbatim>\<open>if fd_file_path:\<close> holds for a non-empty
  string only.
\<close>

fun path_given :: "string option \<Rightarrow> bool" where
  "path_given None = False"
| "path_given (Some p) = (p \<noteq> [])"

text \<open>
  The file system is a partial map from paths to the one-dimensional array that
  \<^verbatim>\<open>np.loadtxt\<close> reads there; \<^verbatim>\<open>os.path.isfile\<close> is membership in its domain.
\<close>

type_synonym series_fs = "string \<Rightarrow> real list option"

definition mean :: "real list \<Rightarrow> real" where
  "mean xs = sum_list xs / real (length xs)"

text \<open>\<^verbatim>\<open>ndarray.var()\<close> and \<^verbatim>\<open>ndarray.std()\<close>: the population variance and its root.\<close>

definition var :: "real list \<Rightarrow> real" where
  "var xs = mean (map (\<lambda>x. (x - mean xs)\<^sup>2) xs)"

definition std :: "real list \<Rightarrow> real" where
  "std xs = sqrt (var xs)"

text \<open>\<^verbatim>\<open>np.where(series > threshold)[0].tolist()\<close>: the indices, ascending.\<close>

definition where_gt :: "real list \<Rightarrow> real \<Rightarrow> nat list" where
  "where_gt xs t = filter (\<lambda>i. xs ! i > t) [0..<length xs]"

subsection \<open>Threshold strings\<close>

definition is_digit :: "char \<Rightarrow> bool" where
  "is_digit c = (c \<in> set ''0123456789'')"

text \<open>\<^verbatim>\<open>\s\<close> of a byte-string pattern: space, tab, newline, return, form feed, vertical tab.\<close>

definition is_space :: "char \<Rightarrow> bool" where
  "is_space c = (c \<in> {CHR '' '', CHR 0x09, CHR 0x0A, CHR 0x0B, CHR 0x0C, CHR 0x0D})"

text \<open>
  \<^verbatim>\<open>re.match(r"([0-9]*\.*[0-9]*)\s*SD", s)\<close>: the match is anchored at the start
  only, every star is greedy and no backtracking can change the text of the group, since
  the classes that follow each other are disjoint. The result is the group.
\<close>

definition sd_match :: "string \<Rightarrow> string option" where
  "sd_match s =
     (let g1 = takeWhile is_digit s; r1 = dropWhile is_digit s;
          g2 = takeWhile (\<lambda>c. c = CHR ''.'') r1; r2 = dropWhile (\<lambda>c. c = CHR ''.'') r1;
          g3 = takeWhile is_digit r2; r3 = dropWhile is_digit r2;
          r4 = dropWhile is_space r3
      in if take 2 r4 = ''SD'' then Some (g1 @ g2 @ g3) else None)"

text \<open>
  \<^verbatim>\<open>str(threshold)\<close> of a number, a boolean, a list or a dictionary never starts with
  digits, dots and blanks followed by \<^verbatim>\<open>SD\<close>, so only a string can match; and
  \<^verbatim>\<open>float\<close> of a number is the number, of a boolean 0 or 1, of anything else but a
  string a \<^verbatim>\<open>TypeError\<close>. The built-in \<^verbatim>\<open>float\<close> on strings is the parameter
  \<open>pf\<close> (\<open>None\<close> where it raises). Any exception is caught by the bare
  \<^verbatim>\<open>except\<close> of the source and becomes the untranslatable-threshold error, here \<open>None\<close>.
\<close>

fun py_float :: "(string \<Rightarrow> real option) \<Rightarrow> pyval \<Rightarrow> real option" where
  "py_float pf (PInt i) = Some (real_of_int i)"
| "py_float pf (PFloat x) = Some x"
| "py_float pf (PBool b) = Some (if b then 1 else 0)"
| "py_float pf (PStr s) = pf s"
| "py_float pf _ = None"

fun translate_threshold :: "(string \<Rightarrow> real option) \<Rightarrow> real list \<Rightarrow> pyval \<Rightarrow> real option" where
  "translate_threshold pf xs (PStr s) =
     (case sd_match s of
        Some g \<Rightarrow> (case pf g of None \<Rightarrow> None | Some k \<Rightarrow> Some (mean xs + k * std xs))
      | None \<Rightarrow> pf s)"
| "translate_threshold pf xs v = py_float pf v"

subsection \<open>The two stages and the censor vector\<close>

text \<open>
  The state after each stage is the pair \<^verbatim>\<open>(offending_time_points, time_course_len)\<close>.
  It starts as \<^verbatim>\<open>([], 0)\<close>.
\<close>

type_synonym censor_state = "nat list \<times> nat"

definition fd_stage ::
  "series_fs \<Rightarrow> (string \<Rightarrow> real option) \<Rightarrow> string option \<Rightarrow> pyval \<Rightarrow> error + censor_state" where
  "fd_stage fs pf fd_file_path fd_threshold =
     (if path_given fd_file_path then
        (case fs (the fd_file_path) of
           None \<Rightarrow> Inl (ValueError FD_file_not_found)
         | Some framewise_displacement \<Rightarrow>
             if \<not> truthy fd_threshold then Inl (ValueError FD_threshold_missing)
             else (case translate_threshold pf framewise_displacement fd_threshold of
                     None \<Rightarrow> Inl (ValueError FD_threshold_untranslatable)
                   | Some t \<Rightarrow>
                       Inr (where_gt framewise_displacement t, length framewise_displacement)))
      else Inr ([], 0))"

text \<open>
  The DVARS stage prefixes the series with \<^verbatim>\<open>0.0\<close>. Lines 108 to 113: when the list
  left by the FD stage is empty the DVARS indices are taken as they are, otherwise the
  two are intersected. \<^verbatim>\<open>list(set(a).intersection(b))\<close> has no defined order; the
  model keeps the order of \<open>a\<close>, and what follows (\<^verbatim>\<open>np.unique\<close>) does not depend on it.
\<close>

definition dvars_stage ::
  "series_fs \<Rightarrow> (string \<Rightarrow> real option) \<Rightarrow> string option \<Rightarrow> pyval \<Rightarrow> censor_state
     \<Rightarrow> error + censor_state" where
  "dvars_stage fs pf dvars_file_path dvars_threshold st =
     (if path_given dvars_file_path then
        (case fs (the dvars_file_path) of
           None \<Rightarrow> Inl (ValueError DVARS_file_not_found)
         | Some raw \<Rightarrow>
             if \<not> truthy dvars_threshold then Inl (ValueError DVARS_threshold_missing)
             else (let dvars = 0 # raw in
               case translate_threshold pf dvars dvars_threshold of
                 None \<Rightarrow> Inl (ValueError DVARS_threshold_untranslatable)
               | Some t \<Rightarrow>
                   if fst st = [] then Inr (where_gt dvars t, length dvars)
                   else Inr (filter (\<lambda>i. i \<in> set (where_gt dvars t)) (fst st), length dvars)))
      else Inr st)"

definition offending_time_points ::
  "series_fs \<Rightarrow> (string \<Rightarrow> real option) \<Rightarrow> string option \<Rightarrow> string option \<Rightarrow> pyval \<Rightarrow> pyval
     \<Rightarrow> error + censor_state" where
  "offending_time_points fs pf fd_file_path dvars_file_path fd_threshold dvars_threshold =
     (case fd_stage fs pf fd_file_path fd_threshold of
        Inl e \<Rightarrow> Inl e
      | Inr st \<Rightarrow> dvars_stage fs pf dvars_file_path dvars_threshold st)"

text \<open>
  \<^verbatim>\<open>range(censor - previous, censor + subsequent + 1)\<close> for every offending index, then
  the indices within \<^verbatim>\<open>[0, time_course_len)\<close> are set to zero in a vector of ones.
\<close>

definition extended_censors :: "nat list \<Rightarrow> int \<Rightarrow> int \<Rightarrow> int list" where
  "extended_censors offending previous subsequent =
     concat (map (\<lambda>censor. [int censor - previous ..int censor + subsequent]) offending)"

definition censor_vector :: "censor_state \<Rightarrow> int \<Rightarrow> int \<Rightarrow> int list" where
  "censor_vector st previous subsequent =
     map (\<lambda>i. if int i \<in> set (extended_censors (fst st) previous subsequent) then 0 else 1)
       [0..<snd st]"

definition find_offending_time_points ::
  "series_fs \<Rightarrow> (string \<Rightarrow> real option) \<Rightarrow> string option \<Rightarrow> string option \<Rightarrow> pyval \<Rightarrow> pyval
     \<Rightarrow> int \<Rightarrow> int \<Rightarrow> error + int list" where
  "find_offending_time_points fs pf fd_file_path dvars_file_path fd_threshold dvars_threshold
       number_of_previous_trs_to_remove number_of_subsequent_trs_to_remove =
     (case offending_time_points fs pf fd_file_path dvars_file_path fd_threshold dvars_threshold of
        Inl e \<Rightarrow> Inl e
      | Inr st \<Rightarrow>
          Inr (censor_vector st number_of_previous_trs_to_remove
                 number_of_subsequent_trs_to_remove))"

section \<open>Temporal variance mask: \<^verbatim>\<open>create_temporal_variance_mask\<close>\<close>

text \<open>
  A NIfTI image as \<^verbatim>\<open>nibabel\<close> loads it: its shape, its affine and the voxel data,
  flattened in row-major order (the order in which \<^verbatim>\<open>reshape\<close> reads and writes), so
  that a well-formed image has as many voxels as the product of its shape.
\<close>

record image =
  shape :: "nat list"
  affine :: "real list"
  voxels :: "real list"

type_synonym image_fs = "string \<Rightarrow> image option"

definition endswith :: "string \<Rightarrow> string \<Rightarrow> bool" where
  "endswith s suffix =
     (length suffix \<le> length s \<and> drop (length s - length suffix) s = suffix)"

text \<open>
  The guard of both path arguments:
  \<^verbatim>\<open>path and (path.endswith(".nii") or path.endswith(".nii.gz"))\<close>.
\<close>

definition nifti_path :: "string option \<Rightarrow> bool" where
  "nifti_path p =
     (case p of
        None \<Rightarrow> False
      | Some s \<Rightarrow> s \<noteq> [] \<and> (endswith s ''.nii'' \<or> endswith s ''.nii.gz''))"

datatype threshold_method = VAR | SD | PCT

text \<open>
  \<^verbatim>\<open>re.match(r"([0-9]+(\.[0-9]+)?)\s*SD", threshold)\<close> and the same with \<^verbatim>\<open>PCT\<close>:
  digits, an optional fraction, blanks, the unit. The result is the first group.
\<close>

definition number_unit_match :: "string \<Rightarrow> string \<Rightarrow> string option" where
  "number_unit_match unit s =
     (let g1 = takeWhile is_digit s; r1 = dropWhile is_digit s;
          frac = (case r1 of
                    [] \<Rightarrow> []
                  | c # r \<Rightarrow>
                      if c = CHR ''.'' \<and> takeWhile is_digit r \<noteq> []
                      then c # takeWhile is_digit r else []);
          r3 = dropWhile is_space (drop (length frac) r1)
      in if g1 \<noteq> [] \<and> take (length unit) r3 = unit then Some (g1 @ frac) else None)"

text \<open>
  Lines 179 to 192: the method is \<^verbatim>\<open>"VAR"\<close> and the value the threshold itself, unless
  the threshold is a string that matches one of the two patterns, tried in the order of
  the dictionary.
\<close>

definition threshold_method_value :: "pyval \<Rightarrow> threshold_method \<times> pyval" where
  "threshold_method_value threshold =
     (case threshold of
        PStr s \<Rightarrow>
          (let mv0 = (VAR, threshold);
               mv1 = (case number_unit_match ''SD'' s of
                        Some g \<Rightarrow> (SD, PStr g) | None \<Rightarrow> mv0)
           in (case number_unit_match ''PCT'' s of
                 Some g \<Rightarrow> (PCT, PStr g) | None \<Rightarrow> mv1))
      | _ \<Rightarrow> (VAR, threshold))"

text \<open>Lines 161 to 213: every check made before an image is loaded, in source order.\<close>

definition check_parameters ::
  "(string \<Rightarrow> real option) \<Rightarrow> string option \<Rightarrow> string option \<Rightarrow> pyval \<Rightarrow> pyval
     \<Rightarrow> error + (threshold_method \<times> real \<times> bool)" where
  "check_parameters pf functional_file_path mask_file_path threshold by_slice =
     (if \<not> nifti_path functional_file_path then Inl (ValueError Improper_functional_file)
      else if \<not> nifti_path mask_file_path then Inl (ValueError Improper_mask_file)
      else if \<not> truthy threshold then Inl (ValueError Threshold_not_specified)
      else (case threshold_method_value threshold of
        (threshold_method, v) \<Rightarrow>
          (case py_float pf v of
             None \<Rightarrow> Inl (ValueError Threshold_conversion)
           | Some threshold_value \<Rightarrow>
               if threshold_value < 0 then Inl (ValueError Threshold_negative)
               else if threshold_method = PCT \<and> threshold_value \<ge> 100
                 then Inl (ValueError Percentile_too_large)
               else (case by_slice of
                       PBool b \<Rightarrow> Inr (threshold_method, threshold_value, b)
                     | _ \<Rightarrow> Inl (ValueError By_slice_not_boolean)))))"

text \<open>\<^verbatim>\<open>get_data().var(axis=3)\<close> of \<open>n\<close> voxels with \<open>t\<close> time points each.\<close>

definition temporal_variance :: "nat \<Rightarrow> nat \<Rightarrow> real list \<Rightarrow> real list" where
  "temporal_variance n t d = map (\<lambda>v. var (take t (drop (v * t) d))) [0..<n]"

text \<open>Column \<open>k\<close> of the flat data seen as a matrix of \<open>nrows\<close> by \<open>ncols\<close>.\<close>

definition column :: "nat \<Rightarrow> nat \<Rightarrow> nat \<Rightarrow> 'a list \<Rightarrow> 'a list" where
  "column nrows ncols k xs = map (\<lambda>i. xs ! (i * ncols + k)) [0..<nrows]"

text \<open>
  \<^verbatim>\<open>np.percentile(a, q)\<close> with its default linear interpolation: the virtual index
  \<open>q / 100 * (n - 1)\<close> in the sorted data, between its two neighbours.
\<close>

definition percentile :: "real list \<Rightarrow> real \<Rightarrow> real" where
  "percentile a q =
     (let s = sort a; h = q / 100 * real (length a - 1);
          lo = nat \<lfloor>h\<rfloor>; hi = min (lo + 1) (length a - 1)
      in s ! lo + (h - real lo) * (s ! hi - s ! lo))"

definition slice_threshold_value :: "threshold_method \<Rightarrow> real \<Rightarrow> real list \<Rightarrow> real" where
  "slice_threshold_value threshold_method threshold_value variance_slice =
     (case threshold_method of
        PCT \<Rightarrow> percentile variance_slice (100 - threshold_value)
      | SD \<Rightarrow> mean variance_slice + threshold_value * std variance_slice
      | VAR \<Rightarrow> threshold_value)"

text \<open>
  The body of the loop over slices, lines 263 to 289: a slice without a voxel of the mask
  stays all false; otherwise the threshold is computed over the variances inside the mask
  and the slice keeps the voxels of the mask whose variance is greater.
\<close>

definition slice_mask :: "threshold_method \<Rightarrow> real \<Rightarrow> real list \<Rightarrow> bool list \<Rightarrow> bool list" where
  "slice_mask threshold_method threshold_value variance_col mask_col =
     (if \<not> list_ex (\<lambda>b. b) mask_col then replicate (length mask_col) False
      else (let variance_slice = map fst (filter snd (zip variance_col mask_col));
                t = slice_threshold_value threshold_method threshold_value variance_slice
            in map (\<lambda>(x, b). b \<and> x > t) (zip variance_col mask_col)))"

text \<open>
  Lines 224 to 241. The mask is loaded when its path is given, and must have the shape
  and the affine of the functional image; the other branch takes the voxels of non-zero
  variance and leaves \<^verbatim>\<open>mask_image\<close> unbound.
\<close>

definition load_mask ::
  "image_fs \<Rightarrow> string option \<Rightarrow> image \<Rightarrow> real list \<Rightarrow> error + (image option \<times> bool list)" where
  "load_mask fs mask_file_path functional_data_img functional_data_variance =
     (if path_given mask_file_path then
        (case fs (the mask_file_path) of
           None \<Rightarrow> Inl (IOError (the mask_file_path))
         | Some mask_image \<Rightarrow>
             if shape mask_image = take 3 (shape functional_data_img)
                \<and> affine mask_image = affine functional_data_img
             then Inr (Some mask_image, map (\<lambda>v. v \<noteq> 0) (voxels mask_image))
             else Inl (ValueError Mask_shape_mismatch))
      else Inr (None, map (\<lambda>v. v > 0) functional_data_variance))"

text \<open>
  Lines 243 to 293: the variance and the mask are reshaped to one column, or to one
  column per slice of the last spatial axis, each column is thresholded, and the result
  is read back in row-major order.
\<close>

definition variance_mask_data ::
  "threshold_method \<Rightarrow> real \<Rightarrow> bool \<Rightarrow> nat \<Rightarrow> nat \<Rightarrow> nat \<Rightarrow> real list \<Rightarrow> bool list \<Rightarrow> real list" where
  "variance_mask_data threshold_method threshold_value by_slice x y z variance mask_data =
     (let nrows = (if by_slice then x * y else x * y * z);
          ncols = (if by_slice then z else 1);
          cols = map (\<lambda>k. slice_mask threshold_method threshold_value
                             (column nrows ncols k variance) (column nrows ncols k mask_data))
                   [0..<ncols]
      in map (\<lambda>j. if cols ! (j mod ncols) ! (j div ncols) then 1 else 0) [0..<nrows * ncols])"

definition create_temporal_variance_mask ::
  "image_fs \<Rightarrow> (string \<Rightarrow> real option) \<Rightarrow> string option \<Rightarrow> string option \<Rightarrow> pyval \<Rightarrow> pyval
     \<Rightarrow> error + image" where
  "create_temporal_variance_mask fs pf functional_file_path mask_file_path threshold by_slice =
     (case check_parameters pf functional_file_path mask_file_path threshold by_slice of
        Inl e \<Rightarrow> Inl e
      | Inr (threshold_method, threshold_value, by_slice_b) \<Rightarrow>
          (case fs (the functional_file_path) of
             None \<Rightarrow> Inl (IOError (the functional_file_path))
           | Some functional_data_img \<Rightarrow>
               (case shape functional_data_img of
                  [x, y, z, t] \<Rightarrow>
                    if t < 3 then Inl (ValueError Functional_not_4D)
                    else (let functional_data_variance =
                                temporal_variance (x * y * z) t (voxels functional_data_img)
                      in case load_mask fs mask_file_path functional_data_img
                                functional_data_variance of
                           Inl e \<Rightarrow> Inl e
                         | Inr (mask_image, mask_data) \<Rightarrow>
                             (let out = variance_mask_data threshold_method threshold_value
                                          by_slice_b x y z functional_data_variance mask_data
                              in case mask_image of
                                   None \<Rightarrow> Inl (NameError ''mask_image'')
                                 | Some mi \<Rightarrow>
                                     Inr \<lparr>shape = shape mi, affine = affine mi,
                                          voxels = out\<rparr>))
                | _ \<Rightarrow> Inl (ValueError Functional_not_4D))))"

section \<open>Summary time series: \<^verbatim>\<open>summarize_timeseries\<close>\<close>

text \<open>
  A two-dimensional array with its shape. \<^verbatim>\<open>masked_functional\<close> has one row per selected
  voxel and one column per time point.
\<close>

record matrix =
  nrows :: nat
  ncols :: nat
  rows :: "real list list"

definition col :: "matrix \<Rightarrow> nat \<Rightarrow> real list" where
  "col m j = map (\<lambda>r. r ! j) (rows m)"

text \<open>\<^verbatim>\<open>m.T\<close>, \<^verbatim>\<open>m.mean(0)\<close>, \<^verbatim>\<open>m.mean(1)\<close>, \<^verbatim>\<open>m /= c\<close>, \<^verbatim>\<open>np.tile(v, (n, 1))\<close>, \<^verbatim>\<open>a - b\<close>.\<close>

definition transposed :: "matrix \<Rightarrow> matrix" where
  "transposed m = \<lparr>nrows = ncols m, ncols = nrows m, rows = map (col m) [0..<ncols m]\<rparr>"

definition mean_axis0 :: "matrix \<Rightarrow> real list" where
  "mean_axis0 m = map (\<lambda>j. mean (col m j)) [0..<ncols m]"

definition mean_axis1 :: "matrix \<Rightarrow> real list" where
  "mean_axis1 m = map mean (rows m)"

definition divide_by :: "matrix \<Rightarrow> real \<Rightarrow> matrix" where
  "divide_by m c = m\<lparr>rows := map (map (\<lambda>x. x / c)) (rows m)\<rparr>"

definition tile :: "real list \<Rightarrow> nat \<Rightarrow> matrix" where
  "tile v n = \<lparr>nrows = n, ncols = length v, rows = replicate n v\<rparr>"

definition minus_matrix :: "matrix \<Rightarrow> matrix \<Rightarrow> matrix" where
  "minus_matrix a b = a\<lparr>rows := map2 (map2 (-)) (rows a) (rows b)\<rparr>"

text \<open>
  \<^verbatim>\<open>scipy.signal.detrend(m, axis=1, type='linear')\<close>: from every row the least-squares
  line through it is subtracted (in exact arithmetic, the residual of the regression on
  the sample index).
\<close>

definition detrend_linear :: "real list \<Rightarrow> real list" where
  "detrend_linear ys =
     (let xs = map real [0..<length ys]; xb = mean xs; yb = mean ys;
          b = sum_list (map2 (\<lambda>x y. (x - xb) * (y - yb)) xs ys)
                / sum_list (map (\<lambda>x. (x - xb)\<^sup>2) xs)
      in map2 (\<lambda>x y. y - (yb + b * (x - xb))) xs ys)"

definition detrend :: "matrix \<Rightarrow> matrix" where
  "detrend m = m\<lparr>rows := map detrend_linear (rows m)\<rparr>"

text \<open>
  \<^verbatim>\<open>U[:, 0:components]\<close>: a slice stops at the number of columns, and a negative stop
  counts from the end. \<^verbatim>\<open>components\<close> may be an integer, a boolean or \<^verbatim>\<open>None\<close>.
\<close>

definition slice_columns :: "matrix \<Rightarrow> int \<Rightarrow> matrix" where
  "slice_columns u k =
     (let stop = (if k < 0 then nat (int (ncols u) + k) else min (nat k) (ncols u))
      in \<lparr>nrows = nrows u, ncols = stop, rows = map (take stop) (rows u)\<rparr>)"

fun slice_stop :: "pyval \<Rightarrow> matrix \<Rightarrow> error + matrix" where
  "slice_stop (PInt k) u = Inr (slice_columns u k)"
| "slice_stop (PBool b) u = Inr (slice_columns u (if b then 1 else 0))"
| "slice_stop PNone u = Inr u"
| "slice_stop _ u = Inl (TypeError ''slice indices must be integers'')"

text \<open>What the function writes: a one-dimensional series, or for \<^verbatim>\<open>PC\<close> a matrix.\<close>

datatype regressors = Series "real list" | Components matrix

text \<open>Line 485: a summary that is not a dictionary is wrapped into one.\<close>

definition summary_dict :: "pyval \<Rightarrow> (string \<times> pyval) list" where
  "summary_dict summary = (case summary of PDict d \<Rightarrow> d | _ \<Rightarrow> [(''method'', summary)])"

text \<open>
  Lines 496 to 521 on the masked block. The four tests on the method follow each other
  as in the source, each working on the block the one before left. The two library
  routines that have no exact counterpart are parameters: \<open>matrix_norm\<close> is
  \<^verbatim>\<open>np.linalg.norm(m, 2)\<close> and \<open>svd_u\<close> gives the matrix \<open>U\<close> of
  \<^verbatim>\<open>np.linalg.svd(m, full_matrices=False)\<close>.
\<close>

definition summarize_block ::
  "(matrix \<Rightarrow> real) \<Rightarrow> (matrix \<Rightarrow> matrix) \<Rightarrow> matrix \<Rightarrow> pyval \<Rightarrow> error + regressors" where
  "summarize_block matrix_norm svd_u masked_functional summary =
     (case map_of (summary_dict summary) ''method'' of
        None \<Rightarrow> Inl (KeyError ''method'')
      | Some method \<Rightarrow>
          (let st0 = (masked_functional, Series (replicate (ncols masked_functional) 0));
               st1 = (if method = PStr ''Mean''
                      then (fst st0, Series (mean_axis0 (fst st0))) else st0);
               st2 = (if method = PStr ''NormMean''
                      then (let m = divide_by (fst st1) (matrix_norm (fst st1))
                            in (m, Series (mean_axis0 m)))
                      else st1);
               st3 = (if method = PStr ''DetrendNormMean''
                      then (let d = transposed (detrend (fst st2));
                                m = divide_by d (matrix_norm d)
                            in (m, Series (mean_axis0 m)))
                      else st2)
           in if method = PStr ''PC''
              then (let mean_signal = tile (mean_axis1 (fst st3)) (ncols (fst st3));
                        u = svd_u (minus_matrix (transposed (fst st3)) mean_signal)
                    in case map_of (summary_dict summary) ''components'' of
                         None \<Rightarrow> Inl (KeyError ''components'')
                       | Some k \<Rightarrow>
                           (case slice_stop k u of
                              Inl e \<Rightarrow> Inl e
                            | Inr r \<Rightarrow> Inr (Components r)))
              else Inr (snd st3)))"

text \<open>
  Lines 488 to 494: the masks are added voxel by voxel, and the rows of the block are the
  time courses of the voxels where the sum is positive, in row-major order.
\<close>

definition combined_mask :: "image list \<Rightarrow> nat \<Rightarrow> bool list" where
  "combined_mask masks n = map (\<lambda>j. sum_list (map (\<lambda>m. voxels m ! j) masks) > 0) [0..<n]"

definition masked_block :: "image \<Rightarrow> bool list \<Rightarrow> nat \<Rightarrow> matrix" where
  "masked_block functional_img msk t =
     (let selected = filter (\<lambda>j. msk ! j) [0..<length msk]
      in \<lparr>nrows = length selected, ncols = t,
          rows = map (\<lambda>j. take t (drop (j * t) (voxels functional_img))) selected\<rparr>)"

fun load_all :: "image_fs \<Rightarrow> string list \<Rightarrow> error + image list" where
  "load_all fs [] = Inr []"
| "load_all fs (p # ps) =
     (case fs p of
        None \<Rightarrow> Inl (IOError p)
      | Some img \<Rightarrow> (case load_all fs ps of Inl e \<Rightarrow> Inl e | Inr imgs \<Rightarrow> Inr (img # imgs)))"

text \<open>
  The whole function, for a four-dimensional functional image and at least one mask on
  its grid; where the shapes disagree \<^verbatim>\<open>numpy\<close> raises on the indexing.
\<close>

definition summarize_timeseries ::
  "image_fs \<Rightarrow> (matrix \<Rightarrow> real) \<Rightarrow> (matrix \<Rightarrow> matrix) \<Rightarrow> string \<Rightarrow> string list \<Rightarrow> pyval
     \<Rightarrow> error + regressors" where
  "summarize_timeseries fs matrix_norm svd_u functional_path masks_path summary =
     (case load_all fs masks_path of
        Inl e \<Rightarrow> Inl e
      | Inr masks_img \<Rightarrow>
          (case fs functional_path of
             None \<Rightarrow> Inl (IOError functional_path)
           | Some functional_img \<Rightarrow>
               (case shape functional_img of
                  [x, y, z, t] \<Rightarrow>
                    if masks_img \<noteq> [] \<and> list_all (\<lambda>m. shape m = [x, y, z]) masks_img
                    then summarize_block matrix_norm svd_u
                           (masked_block functional_img
                              (combined_mask masks_img (x * y * z)) t) summary
                    else Inl (IndexError ''boolean index did not match'')
                | _ \<Rightarrow> Inl (IndexError ''boolean index did not match''))))"

text \<open>
  The matrix handed to the decomposition in the \<^verbatim>\<open>PC\<close> branch:
  \<^verbatim>\<open>masked_functional.T - mean_signal\<close>, one row per time point.
\<close>

definition centred :: "matrix \<Rightarrow> matrix" where
  "centred blk = minus_matrix (transposed blk) (tile (mean_axis1 blk) (ncols blk))"

section \<open>Mask derivation: \<^verbatim>\<open>generate_summarize_tissue_mask\<close>\<close>

text \<open>
  A workflow node is known by its interface and its name. An entry of the resource pool
  is the pair of a node and the name of one of its outputs, or, under
  \<^verbatim>\<open>'Transformations'\<close>, a dictionary of such pairs.
\<close>

datatype node = Node string string

datatype entry =
    Resource node string
  | Transforms "(string \<times> node \<times> string) list"

text \<open>
  What the function changes: the connections of \<^verbatim>\<open>nuisance_wf\<close>, the inputs set on
  nodes, and \<^verbatim>\<open>pipeline_resource_pool\<close>, which is updated in place. \<open>created\<close> is
  the record of the calls of \<^verbatim>\<open>pe.Node(...)\<close>: every node constructed, with the
  \<^verbatim>\<open>mask_key\<close> of the step that constructed it. A builder is registered for a key
  each time the node of its artifact is constructed.
\<close>

record build_state =
  connections :: "(node \<times> string \<times> node \<times> string) list"
  node_inputs :: "(node \<times> string \<times> pyval) list"
  created :: "(string \<times> node) list"
  pool :: "string \<rightharpoonup> entry"

text \<open>
  The statements of a builder, in the order of the source. Each either changes the
  state or raises, and what was done before a raise stays done. \<^verbatim>\<open>nuisance_wf.connect\<close>
  is taken to accept every connection: the checks that the workflow library makes on the
  nodes it is given are not part of this repository.
\<close>

datatype action =
    CreateNode string node
  | Raise error
  | NeedPool string
  | ConnectPool string node string
  | ConnectTransform string node string
  | Connect node string node string
  | SetInput node string pyval
  | SetInputSelector node string string
  | Insert string node string

fun perform :: "(string \<rightharpoonup> pyval) \<Rightarrow> action \<Rightarrow> build_state \<Rightarrow> error option \<times> build_state" where
  "perform sel (CreateNode k n) st = (None, st\<lparr>created := created st @ [(k, n)]\<rparr>)"
| "perform sel (Raise e) st = (Some e, st)"
| "perform sel (NeedPool k) st =
     (case pool st k of None \<Rightarrow> (Some (KeyError k), st) | Some e \<Rightarrow> (None, st))"
| "perform sel (ConnectPool k n field) st =
     (case pool st k of
        None \<Rightarrow> (Some (KeyError k), st)
      | Some (Resource src out) \<Rightarrow>
          (None, st\<lparr>connections := connections st @ [(src, out, n, field)]\<rparr>)
      | Some (Transforms ts) \<Rightarrow> (Some (TypeError k), st))"
| "perform sel (ConnectTransform k n field) st =
     (case pool st ''Transformations'' of
        None \<Rightarrow> (Some (KeyError ''Transformations''), st)
      | Some (Resource src out) \<Rightarrow> (Some (TypeError ''Transformations''), st)
      | Some (Transforms ts) \<Rightarrow>
          (case map_of ts k of
             None \<Rightarrow> (Some (KeyError k), st)
           | Some (src, out) \<Rightarrow>
               (None, st\<lparr>connections := connections st @ [(src, out, n, field)]\<rparr>)))"
| "perform sel (Connect src out n field) st =
     (None, st\<lparr>connections := connections st @ [(src, out, n, field)]\<rparr>)"
| "perform sel (SetInput n field v) st =
     (None, st\<lparr>node_inputs := node_inputs st @ [(n, field, v)]\<rparr>)"
| "perform sel (SetInputSelector n field k) st =
     (case sel k of
        None \<Rightarrow> (Some (KeyError k), st)
      | Some v \<Rightarrow> (None, st\<lparr>node_inputs := node_inputs st @ [(n, field, v)]\<rparr>))"
| "perform sel (Insert k n out) st = (None, st\<lparr>pool := (pool st)(k \<mapsto> Resource n out)\<rparr>)"

fun perform_all :: "(string \<rightharpoonup> pyval) \<Rightarrow> action list \<Rightarrow> build_state \<Rightarrow> error option \<times> build_state" where
  "perform_all sel [] st = (None, st)"
| "perform_all sel (a # as) st =
     (case perform sel a st of
        (Some e, st') \<Rightarrow> (Some e, st')
      | (None, st') \<Rightarrow> perform_all sel as st')"

subsection \<open>Keys\<close>

fun join_with :: "string \<Rightarrow> string list \<Rightarrow> string" where
  "join_with sep [] = []"
| "join_with sep [x] = x"
| "join_with sep (x # y # ys) = x @ sep @ join_with sep (y # ys)"

definition startswith :: "string \<Rightarrow> string \<Rightarrow> bool" where
  "startswith s p = (take (length p) s = p)"

text \<open>\<^verbatim>\<open>re.sub(r"[^\w]", "_", mask_key)\<close>.\<close>

definition is_word :: "char \<Rightarrow> bool" where
  "is_word c =
     (c \<in> set ''abcdefghijklmnopqrstuvwxyzABCDEFGHIJKLMNOPQRSTUVWXYZ0123456789_'')"

definition node_key :: "string \<Rightarrow> string" where
  "node_key mask_key = map (\<lambda>c. if is_word c then c else CHR ''_'') mask_key"

text \<open>Lines 311 to 315: the steps the descriptor has, in the fixed order.\<close>

definition steps_of :: "(string \<rightharpoonup> string) \<Rightarrow> string list" where
  "steps_of regressor_descriptor =
     filter (\<lambda>key. regressor_descriptor key \<noteq> None) [''tissue'', ''resolution'', ''erosion'']"

text \<open>The key of the first \<open>n\<close> steps; \<open>mask_key\<close> of step \<open>i\<close> is \<open>key_upto d (i + 1)\<close>.\<close>

definition key_upto :: "(string \<rightharpoonup> string) \<Rightarrow> nat \<Rightarrow> string" where
  "key_upto regressor_descriptor n =
     join_with ''_'' (map (\<lambda>s. the (regressor_descriptor s)) (take n (steps_of regressor_descriptor)))"

definition full_mask_key :: "(string \<rightharpoonup> string) \<Rightarrow> string" where
  "full_mask_key regressor_descriptor =
     key_upto regressor_descriptor (length (steps_of regressor_descriptor))"

subsection \<open>The builders\<close>

text \<open>
  Lines 341 to 426. A tissue key that neither starts with \<^verbatim>\<open>FunctionalVariance\<close> nor is
  \<^verbatim>\<open>CerebrospinalFluid\<close> falls through both tests: the source has no \<^verbatim>\<open>else\<close>.
\<close>

definition variance_actions :: "string \<Rightarrow> action list" where
  "variance_actions mask_key =
     (let create_variance_mask_node =
            Node ''Function'' (''create_temporal_variance_mask_'' @ node_key mask_key)
      in [CreateNode mask_key create_variance_mask_node,
          ConnectPool ''Functional'' create_variance_mask_node ''functional_file_path'',
          ConnectPool ''GlobalSignal'' create_variance_mask_node ''mask_file_path'',
          SetInputSelector create_variance_mask_node ''threshold'' ''threshold'',
          SetInputSelector create_variance_mask_node ''by_slice'' ''by_slice'',
          Insert mask_key create_variance_mask_node ''mask_file_path''])"

definition csf_actions :: "string \<Rightarrow> bool \<Rightarrow> action list" where
  "csf_actions mask_key use_ants =
     (let mask_cfs_with_lat_ven = Node ''afni.Calc'' ''mask_cfs_with_lat_ven'';
          collect_linear_transforms =
            Node ''util.Merge'' ''ho_mni_to_2mm_ants_collect_linear_transforms'';
          lat_ven_ants = Node ''ants.ApplyTransforms'' ''lat_ven_mni_to_anat_ants'';
          lat_ven_flirt = Node ''fsl.FLIRT'' ''lat_ven_mni_to_anat_flirt''
      in [NeedPool ''Transformations'',
          CreateNode mask_key mask_cfs_with_lat_ven,
          SetInput mask_cfs_with_lat_ven ''expr'' (PStr ''step(a)*step(b)''),
          SetInput mask_cfs_with_lat_ven ''outputtype'' (PStr ''NIFTI_GZ''),
          SetInput mask_cfs_with_lat_ven ''out_file'' (PStr ''cfs_lat_ven_mask.nii.gz'')]
         @ (if use_ants then
              [CreateNode mask_key collect_linear_transforms,
               ConnectTransform ''anat_to_mni_initial_xfm'' collect_linear_transforms ''in1'',
               ConnectTransform ''anat_to_mni_rigid_xfm'' collect_linear_transforms ''in2'',
               ConnectTransform ''anat_to_mni_affine_xfm'' collect_linear_transforms ''in3'',
               CreateNode mask_key lat_ven_ants,
               SetInput lat_ven_ants ''invert_transform_flags''
                 (PList [PBool True, PBool True, PBool True]),
               SetInput lat_ven_ants ''interpolation'' (PStr ''NearestNeighbor''),
               SetInput lat_ven_ants ''dimension'' (PInt 3),
               Connect collect_linear_transforms ''out'' lat_ven_ants ''transforms'',
               ConnectPool ''Ventricles'' lat_ven_ants ''input_image'',
               ConnectPool ''CerebrospinalFluidUnmasked'' lat_ven_ants ''reference_image'',
               Connect lat_ven_ants ''output_image'' mask_cfs_with_lat_ven ''in_file_b'']
            else
              [CreateNode mask_key lat_ven_flirt,
               SetInput lat_ven_flirt ''interp'' (PStr ''nearestneighbour''),
               ConnectTransform ''mni_to_anat_linear_xfm'' lat_ven_flirt ''in_matrix_file'',
               ConnectPool ''Ventricles'' lat_ven_flirt ''in_file'',
               ConnectPool ''CerebrospinalFluidUnmasked'' lat_ven_flirt ''reference'',
               Connect lat_ven_flirt ''out_file'' mask_cfs_with_lat_ven ''in_file_b''])
         @ [ConnectPool ''CerebrospinalFluidUnmasked'' mask_cfs_with_lat_ven ''in_file_a'',
            Insert mask_key mask_cfs_with_lat_ven ''out_file''])"

definition tissue_actions :: "string \<Rightarrow> bool \<Rightarrow> action list" where
  "tissue_actions mask_key use_ants =
     (if startswith mask_key ''FunctionalVariance'' then variance_actions mask_key
      else if mask_key = ''CerebrospinalFluid'' then csf_actions mask_key use_ants
      else [])"

text \<open>
  Lines 428 to 457. The node is constructed first; then
  \<^verbatim>\<open>regressor_selector['extraction_resolution']\<close> raises when the selector has no such
  key. The text that \<^verbatim>\<open>'Anatomical_{}mm'.format(resolution)\<close> puts for the resolution
  is the parameter \<open>fmt\<close>.
\<close>

definition resolution_actions ::
  "(pyval \<Rightarrow> string) \<Rightarrow> (string \<rightharpoonup> pyval) \<Rightarrow> string \<Rightarrow> string \<Rightarrow> action list" where
  "resolution_actions fmt regressor_selector mask_key prev_mask_key =
     (let mask_to_epi = Node ''fsl.FLIRT'' (''mask_to_epi_flirt_applyxfm_'' @ node_key mask_key)
      in CreateNode mask_key mask_to_epi #
         (case regressor_selector ''extraction_resolution'' of
            None \<Rightarrow> [Raise (KeyError ''extraction_resolution'')]
          | Some resolution \<Rightarrow>
              (if resolution = PStr ''Functional''
               then [ConnectPool ''Functional'' mask_to_epi ''reference'']
               else [SetInput mask_to_epi ''apply_isoxfm'' resolution,
                     ConnectPool (''Anatomical_'' @ fmt resolution @ ''mm'')
                       mask_to_epi ''reference''])
              @ [ConnectPool prev_mask_key mask_to_epi ''in_file'',
                 Insert mask_key mask_to_epi ''out_file'']))"

text \<open>Lines 460 to 477.\<close>

definition erosion_actions :: "string \<Rightarrow> string \<Rightarrow> action list" where
  "erosion_actions mask_key prev_mask_key =
     (let erode_mask_node = Node ''afni.Calc'' (''erode_mask_node_'' @ node_key mask_key)
      in [CreateNode mask_key erode_mask_node,
          SetInput erode_mask_node ''args''
            (PStr ''-b a+i -c a-i -d a+j -e a-j -f a+k -g a-k''),
          SetInput erode_mask_node ''expr'' (PStr ''a*(1-amongst(0,b,c,d,e,f,g))''),
          SetInput erode_mask_node ''outputtype'' (PStr ''NIFTI_GZ''),
          SetInput erode_mask_node ''out_file'' (PStr ''erode_mask_node.nii.gz''),
          ConnectPool prev_mask_key erode_mask_node ''in_file_a'',
          Insert mask_key erode_mask_node ''out_file''])"

definition step_actions ::
  "(pyval \<Rightarrow> string) \<Rightarrow> (string \<rightharpoonup> pyval) \<Rightarrow> bool \<Rightarrow> string \<Rightarrow> string \<Rightarrow> string
     \<Rightarrow> action list" where
  "step_actions fmt regressor_selector use_ants step mask_key prev_mask_key =
     (if step = ''tissue'' then tissue_actions mask_key use_ants
      else if step = ''resolution''
        then resolution_actions fmt regressor_selector mask_key prev_mask_key
      else if step = ''erosion'' then erosion_actions mask_key prev_mask_key
      else [])"

subsection \<open>The loop over the steps\<close>

text \<open>
  One turn of the loop of line 322 for step \<open>i\<close>: nothing happens when the key of the
  step is in the pool (\<^verbatim>\<open>continue\<close>), otherwise the builder of the step runs.
\<close>

definition process_step ::
  "(pyval \<Rightarrow> string) \<Rightarrow> (string \<rightharpoonup> string) \<Rightarrow> (string \<rightharpoonup> pyval) \<Rightarrow> bool \<Rightarrow> nat
     \<Rightarrow> build_state \<Rightarrow> error option \<times> build_state" where
  "process_step fmt regressor_descriptor regressor_selector use_ants step_i st =
     (let mask_key = key_upto regressor_descriptor (step_i + 1);
          prev_mask_key = key_upto regressor_descriptor step_i
      in if pool st mask_key \<noteq> None then (None, st)
         else perform_all regressor_selector
                (step_actions fmt regressor_selector use_ants
                   (steps_of regressor_descriptor ! step_i) mask_key prev_mask_key) st)"

fun process_steps ::
  "(pyval \<Rightarrow> string) \<Rightarrow> (string \<rightharpoonup> string) \<Rightarrow> (string \<rightharpoonup> pyval) \<Rightarrow> bool \<Rightarrow> nat list
     \<Rightarrow> build_state \<Rightarrow> error option \<times> build_state" where
  "process_steps fmt d sel use_ants [] st = (None, st)"
| "process_steps fmt d sel use_ants (i # is) st =
     (case process_step fmt d sel use_ants i st of
        (Some e, st') \<Rightarrow> (Some e, st')
      | (None, st') \<Rightarrow> process_steps fmt d sel use_ants is st')"

text \<open>
  The function returns the pool and the full key; when it raises, the state reached so
  far is what the caller's workflow and pool hold.
\<close>

definition generate_summarize_tissue_mask ::
  "(pyval \<Rightarrow> string) \<Rightarrow> build_state \<Rightarrow> (string \<rightharpoonup> string) \<Rightarrow> (string \<rightharpoonup> pyval) \<Rightarrow> bool
     \<Rightarrow> (error + string) \<times> build_state" where
  "generate_summarize_tissue_mask fmt st regressor_descriptor regressor_selector use_ants =
     (case process_steps fmt regressor_descriptor regressor_selector use_ants
             [0..<length (steps_of regressor_descriptor)] st of
        (Some e, st') \<Rightarrow> (Inl e, st')
      | (None, st') \<Rightarrow> (Inr (full_mask_key regressor_descriptor), st'))"

section \<open>Selector names: \<^verbatim>\<open>NuisanceRegressor.__repr__\<close>\<close>

text \<open>
  The selection \<^verbatim>\<open>self.selector\<close> is a dictionary from regressor types to descriptors,
  an association list in insertion order; a descriptor is a Python value, as a rule a
  dictionary. The three conversions \<^verbatim>\<open>"%.2f" % x\<close>, \<^verbatim>\<open>"%d" % x\<close> and \<^verbatim>\<open>"%.2g" % x\<close>
  are parameters, \<open>None\<close> where the conversion raises.
\<close>

record formats =
  fmt_2f :: "pyval \<Rightarrow> string option"
  fmt_d :: "pyval \<Rightarrow> string option"
  fmt_2g :: "pyval \<Rightarrow> string option"

definition bind_err :: "error + 'a \<Rightarrow> ('a \<Rightarrow> error + 'b) \<Rightarrow> error + 'b" where
  "bind_err r f = (case r of Inl e \<Rightarrow> Inl e | Inr v \<Rightarrow> f v)"

text \<open>\<^verbatim>\<open>s.get(k)\<close> and \<^verbatim>\<open>s[k]\<close> on a value that should be a dictionary.\<close>

fun py_get :: "pyval \<Rightarrow> string \<Rightarrow> error + pyval" where
  "py_get (PDict d) k = Inr (case map_of d k of None \<Rightarrow> PNone | Some v \<Rightarrow> v)"
| "py_get _ k = Inl (AttributeError ''get'')"

fun py_item :: "pyval \<Rightarrow> string \<Rightarrow> error + pyval" where
  "py_item (PDict d) k = (case map_of d k of None \<Rightarrow> Inl (KeyError k) | Some v \<Rightarrow> Inr v)"
| "py_item _ k = Inl (TypeError k)"

definition apply_format :: "(pyval \<Rightarrow> string option) \<Rightarrow> pyval \<Rightarrow> error + string" where
  "apply_format f v = (case f v of None \<Rightarrow> Inl (TypeError ''format'') | Some t \<Rightarrow> Inr t)"

text \<open>\<^verbatim>\<open>d[k]\<close> on one of the literal tables of codes: only a string can be a key of it.\<close>

fun code_of :: "(string \<times> string) list \<Rightarrow> pyval \<Rightarrow> error + string" where
  "code_of table (PStr k) =
     (case map_of table k of None \<Rightarrow> Inl (KeyError k) | Some c \<Rightarrow> Inr c)"
| "code_of table _ = Inl (KeyError ''code'')"

text \<open>Lines 544 to 554.\<close>

definition derivative_params :: "pyval \<Rightarrow> error + string" where
  "derivative_params selector =
     (if \<not> truthy selector then Inr []
      else bind_err (py_get selector ''include_squared'') (\<lambda>squared.
           bind_err (py_get selector ''include_delayed'') (\<lambda>delayed.
           bind_err (py_get selector ''include_delayed_squared'') (\<lambda>delayed_squared.
             Inr ((if truthy squared then ''S'' else [])
                  @ (if truthy delayed then ''D'' else [])
                  @ (if truthy delayed_squared then ''B'' else []))))))"

text \<open>Lines 556 to 575.\<close>

definition methods :: "(string \<times> string) list" where
  "methods = [(''PC'', ''PC''), (''Mean'', ''M''), (''NormMean'', ''NM''),
              (''DetrendMean'', ''DM''), (''DetrendNormMean'', ''DNM'')]"

definition summary_params :: "formats \<Rightarrow> pyval \<Rightarrow> error + string" where
  "summary_params F selector =
     bind_err (py_item selector ''summary'') (\<lambda>summ.
       case summ of
         PDict d \<Rightarrow>
           bind_err (py_item summ ''method'') (\<lambda>method.
           bind_err (code_of methods method) (\<lambda>rep.
             if method = PStr ''PC''
             then bind_err (py_item summ ''components'') (\<lambda>c.
                  bind_err (apply_format (fmt_d F) c) (\<lambda>t. Inr (rep @ t)))
             else Inr rep))
       | _ \<Rightarrow> code_of methods summ)"

text \<open>Lines 578 to 591: the codes, in the order in which the loop of line 608 visits them.\<close>

definition regs :: "(string \<times> string) list" where
  "regs = [(''GreyMatter'', ''GM''), (''WhiteMatter'', ''WM''), (''CerebrospinalFluid'', ''CSF''),
           (''tCompCor'', ''tC''), (''aCompCor'', ''aC''), (''GlobalSignal'', ''G''),
           (''Motion'', ''M''), (''PolyOrt'', ''P''), (''Bandpass'', ''B''), (''Censor'', ''C'')]"

definition tissues :: "string list" where
  "tissues = [''GreyMatter'', ''WhiteMatter'', ''CerebrospinalFluid'']"

text \<open>
  Lines 617 to 620 and 643 to 646 compute \<^verbatim>\<open>res\<close>: the resolution as \<^verbatim>\<open>"%.2f"\<close>, with
  \<^verbatim>\<open>E\<close> appended for an eroded mask, when the descriptor has a resolution.
\<close>

definition resolution_text :: "formats \<Rightarrow> pyval \<Rightarrow> error + string option" where
  "resolution_text F s =
     bind_err (py_get s ''extraction_resolution'') (\<lambda>r.
       if truthy r
       then bind_err (apply_format (fmt_2f F) r) (\<lambda>res.
            bind_err (py_get s ''erode_mask'') (\<lambda>e.
              Inr (Some (res @ (if truthy e then ''E'' else [])))))
       else Inr None)"

text \<open>
  Lines 616 to 623: the pieces of a tissue type. \<^verbatim>\<open>res\<close> is computed and then not
  used: the pieces are the code, the summary and the derivatives.
\<close>

definition tissue_pieces :: "formats \<Rightarrow> string \<Rightarrow> pyval \<Rightarrow> error + string list" where
  "tissue_pieces F code s =
     bind_err (resolution_text F s) (\<lambda>res.
     bind_err (summary_params F s) (\<lambda>summary.
     bind_err (derivative_params s) (\<lambda>derivative.
       Inr [code, summary, derivative])))"

text \<open>Lines 625 to 638.\<close>

definition tcompcor_pieces :: "formats \<Rightarrow> string \<Rightarrow> pyval \<Rightarrow> error + string list" where
  "tcompcor_pieces F code s =
     bind_err (py_get s ''by_slice'') (\<lambda>by_slice.
     bind_err (py_get s ''threshold'') (\<lambda>t.
     bind_err (if truthy t
               then (case t of
                       PStr text \<Rightarrow> Inr text
                     | _ \<Rightarrow> apply_format (fmt_2f F) t)
               else Inr []) (\<lambda>text.
     bind_err (summary_params F s) (\<lambda>summary.
     bind_err (derivative_params s) (\<lambda>derivative.
       Inr [code, (if truthy by_slice then ''S'' else []) @ text, summary, derivative])))))"

text \<open>Lines 640 to 649. \<^verbatim>\<open>regs[t] for t in s['tissues']\<close> needs a list of known types.\<close>

fun codes_of :: "pyval list \<Rightarrow> error + string list" where
  "codes_of [] = Inr []"
| "codes_of (t # ts) =
     bind_err (code_of regs t) (\<lambda>c. bind_err (codes_of ts) (\<lambda>cs. Inr (c # cs)))"

definition acompcor_pieces :: "formats \<Rightarrow> string \<Rightarrow> pyval \<Rightarrow> error + string list" where
  "acompcor_pieces F code s =
     bind_err (py_get s ''tissues'') (\<lambda>ts.
     bind_err (if truthy ts
               then (case ts of
                       PList names \<Rightarrow>
                         bind_err (codes_of names) (\<lambda>cs. Inr [join_with ''+'' cs])
                     | _ \<Rightarrow> Inl (TypeError ''tissues''))
               else Inr []) (\<lambda>joined.
     bind_err (resolution_text F s) (\<lambda>res.
     bind_err (summary_params F s) (\<lambda>summary.
     bind_err (derivative_params s) (\<lambda>derivative.
       Inr ([code] @ joined @ [summary, derivative]))))))"

text \<open>
  Lines 665 to 696. \<^verbatim>\<open>sorted(..., reverse=True, key=lambda d: d['type'])\<close> is stable:
  thresholds of the same type keep the order of the list. It is the list reversed,
  sorted by the key in ascending order and reversed again.
\<close>

definition censoring :: "(string \<times> string) list" where
  "censoring = [(''Kill'', ''K''), (''Zero'', ''Z''), (''Interpolate'', ''I''),
                (''SpikeRegression'', ''S'')]"

definition thresholds :: "(string \<times> string) list" where
  "thresholds = [(''FD'', ''FD''), (''DVARS'', ''DV'')]"

fun threshold_type :: "pyval \<Rightarrow> error + string" where
  "threshold_type st =
     bind_err (py_item st ''type'') (\<lambda>t. case t of PStr n \<Rightarrow> Inr n | _ \<Rightarrow> Inl (KeyError ''type''))"

fun typed_thresholds :: "pyval list \<Rightarrow> error + (string \<times> pyval) list" where
  "typed_thresholds [] = Inr []"
| "typed_thresholds (st # sts) =
     bind_err (threshold_type st) (\<lambda>n.
     bind_err (typed_thresholds sts) (\<lambda>rest. Inr ((n, st) # rest)))"

definition sorted_reverse :: "(string \<times> pyval) list \<Rightarrow> (string \<times> pyval) list" where
  "sorted_reverse xs = rev (sort_key fst (rev xs))"

definition threshold_piece :: "formats \<Rightarrow> string \<times> pyval \<Rightarrow> error + string" where
  "threshold_piece F nst =
     bind_err (code_of thresholds (PStr (fst nst))) (\<lambda>thresh.
     bind_err (py_item (snd nst) ''value'') (\<lambda>v.
       case v of
         PStr text \<Rightarrow> Inr (thresh @ text)
       | _ \<Rightarrow> bind_err (apply_format (fmt_2g F) v) (\<lambda>text. Inr (thresh @ text))))"

fun threshold_pieces :: "formats \<Rightarrow> (string \<times> pyval) list \<Rightarrow> error + string list" where
  "threshold_pieces F [] = Inr []"
| "threshold_pieces F (x # xs) =
     bind_err (threshold_piece F x) (\<lambda>p.
     bind_err (threshold_pieces F xs) (\<lambda>ps. Inr (p # ps)))"

definition trs_text :: "formats \<Rightarrow> pyval \<Rightarrow> string \<Rightarrow> error + string" where
  "trs_text F s k =
     bind_err (py_get s k) (\<lambda>n. if truthy n then apply_format (fmt_d F) n else Inr ''0'')"

definition censor_pieces :: "formats \<Rightarrow> string \<Rightarrow> pyval \<Rightarrow> error + string list" where
  "censor_pieces F code s =
     bind_err (py_item s ''method'') (\<lambda>m.
     bind_err (code_of censoring m) (\<lambda>method.
     bind_err (trs_text F s ''number_of_previous_trs_to_remove'') (\<lambda>previous.
     bind_err (trs_text F s ''number_of_subsequent_trs_to_remove'') (\<lambda>subsequent.
     bind_err (py_item s ''thresholds'') (\<lambda>ths.
       case ths of
         PList sts \<Rightarrow>
           bind_err (typed_thresholds sts) (\<lambda>typed.
           bind_err (threshold_pieces F (sorted_reverse typed)) (\<lambda>ps.
             Inr ([code, method, previous @ ''+'' @ subsequent] @ ps)))
       | _ \<Rightarrow> Inl (TypeError ''thresholds''))))))"

text \<open>
  The chain of tests of lines 616 to 665. The source compares with \<^verbatim>\<open>'Global'\<close> and
  \<^verbatim>\<open>'BandPass'\<close>, which are not among the types the loop visits, so for
  \<^verbatim>\<open>GlobalSignal\<close> and \<^verbatim>\<open>Bandpass\<close> only the code is left.
\<close>

definition pieces_of :: "formats \<Rightarrow> string \<Rightarrow> string \<Rightarrow> pyval \<Rightarrow> error + string list" where
  "pieces_of F r code s =
     (if r \<in> set tissues then tissue_pieces F code s
      else if r = ''tCompCor'' then tcompcor_pieces F code s
      else if r = ''aCompCor'' then acompcor_pieces F code s
      else if r = ''Global''
        then bind_err (summary_params F s) (\<lambda>summary.
             bind_err (derivative_params s) (\<lambda>derivative. Inr [code, summary, derivative]))
      else if r = ''Motion''
        then bind_err (derivative_params s) (\<lambda>derivative. Inr [code, derivative])
      else if r = ''PolyOrt''
        then bind_err (py_item s ''degree'') (\<lambda>d.
             bind_err (apply_format (fmt_d F) d) (\<lambda>t. Inr [code, t]))
      else if r = ''BandPass''
        then bind_err (py_item s ''top_frequency'') (\<lambda>top.
             bind_err (apply_format (fmt_2f F) top) (\<lambda>t.
             bind_err (py_item s ''bottom_frequency'') (\<lambda>bottom.
             bind_err (apply_format (fmt_2f F) bottom) (\<lambda>b.
               Inr [code, ''T'' @ t, ''B'' @ b]))))
      else if r = ''Censor'' then censor_pieces F code s
      else Inr [code])"

text \<open>Line 698: \<^verbatim>\<open>'-'.join(filter(None, pieces))\<close>.\<close>

definition token :: "string list \<Rightarrow> string" where
  "token pieces = join_with ''-'' (filter (\<lambda>p. p \<noteq> []) pieces)"

fun representations ::
  "formats \<Rightarrow> (string \<times> pyval) list \<Rightarrow> (string \<times> string) list \<Rightarrow> error + string list" where
  "representations F selector [] = Inr []"
| "representations F selector ((r, code) # rest) =
     (case map_of selector r of
        None \<Rightarrow> representations F selector rest
      | Some s \<Rightarrow>
          bind_err (pieces_of F r code s) (\<lambda>pieces.
          bind_err (representations F selector rest) (\<lambda>more. Inr (token pieces # more))))"

definition canonicalize :: "formats \<Rightarrow> (string \<times> pyval) list \<Rightarrow> error + string" where
  "canonicalize F selector =
     bind_err (representations F selector regs) (\<lambda>reprs. Inr (join_with ''_'' reprs))"

text \<open>The type of a threshold, where it has one.\<close>

definition type_name :: "pyval \<Rightarrow> string" where
  "type_name st = (case threshold_type st of Inr n \<Rightarrow> n | Inl e \<Rightarrow> [])"

text \<open>
  The keys under which a list of statements stores into the pool, the nodes it
  constructs, and whether it has a statement that raises.
\<close>

fun insert_keys :: "action list \<Rightarrow> string list" where
  "insert_keys [] = []"
| "insert_keys (Insert k n out # as) = k # insert_keys as"
| "insert_keys (a # as) = insert_keys as"

fun creations :: "action list \<Rightarrow> (string \<times> node) list" where
  "creations [] = []"
| "creations (CreateNode k n # as) = (k, n) # creations as"
| "creations (a # as) = creations as"

fun raises :: "action list \<Rightarrow> bool" where
  "raises [] = False"
| "raises (Raise e # as) = True"
| "raises (a # as) = raises as"

text \<open>The nodes constructed for a key, as the state records them.\<close>

definition created_for :: "string \<Rightarrow> build_state \<Rightarrow> (string \<times> node) list" where
  "created_for k st = filter (\<lambda>e. fst e = k) (created st)"

text \<open>
  The tissue key of a descriptor has a builder, or is in the pool already: the condition
  under which the tissue step leaves its key in the pool.
\<close>

definition tissue_resolves :: "(string \<rightharpoonup> string) \<Rightarrow> build_state \<Rightarrow> bool" where
  "tissue_resolves d st =
     (case d ''tissue'' of
        None \<Rightarrow> True
      | Some t \<Rightarrow>
          startswith t ''FunctionalVariance'' \<or> t = ''CerebrospinalFluid''
          \<or> pool st t \<noteq> None)"

section \<open>Example inputs\<close>

text \<open>
  A file system with a framewise-displacement file in which nothing exceeds 1, a DVARS
  file in which both samples do, and a second FD file with one spike.
\<close>

definition example_fs :: series_fs where
  "example_fs p =
     (if p = ''fd_flat.1D'' then Some [0, 0, 0]
      else if p = ''dvars.1D'' then Some [5, 5]
      else if p = ''fd_spike.1D'' then Some [0, 0, 5, 0, 0]
      else None)"

definition no_float :: "string \<Rightarrow> real option" where
  "no_float s = None"

text \<open>
  A functional image of three voxels with three time points each, whose temporal
  variances are 0, 2/3 and 8/3, and a mask that holds all three voxels.
\<close>

definition identity_affine :: "real list" where
  "identity_affine = [1, 0, 0, 0, 0, 1, 0, 0, 0, 0, 1, 0, 0, 0, 0, 1]"

definition example_func :: image where
  "example_func =
     \<lparr>shape = [3, 1, 1, 3], affine = identity_affine,
      voxels = [0, 0, 0, 0, 1, 2, 0, 2, 4]\<rparr>"

definition example_mask :: image where
  "example_mask = \<lparr>shape = [3, 1, 1], affine = identity_affine, voxels = [1, 1, 1]\<rparr>"

definition example_img_fs :: image_fs where
  "example_img_fs p =
     (if p = ''func.nii.gz'' then Some example_func
      else if p = ''mask.nii.gz'' then Some example_mask
      else None)"

text \<open>\<^verbatim>\<open>float\<close> on the two strings the examples need.\<close>

definition example_float :: "string \<Rightarrow> real option" where
  "example_float s =
     (if s = ''50'' then Some 50 else if s = ''25'' then Some 25 else None)"

text \<open>
  Two masked blocks: two voxels by three time points, and one voxel by three time
  points.
\<close>

definition two_by_three :: matrix where
  "two_by_three = \<lparr>nrows = 2, ncols = 3, rows = [[1, 2, 4], [0, 3, 3]]\<rparr>"

definition one_by_three :: matrix where
  "one_by_three = \<lparr>nrows = 1, ncols = 3, rows = [[1, 2, 4]]\<rparr>"

text \<open>
  A stand-in for the decomposition in the examples. For a matrix of one non-zero column
  the reduced decomposition has one left singular vector, the column divided by its
  Euclidean norm, and this is what \<open>single_column_u\<close> returns there; for any other
  matrix it only has the shape of the reduced \<open>U\<close>: as many rows as the matrix and
  as many columns as the smaller of its two dimensions.
\<close>

definition single_column_u :: "matrix \<Rightarrow> matrix" where
  "single_column_u m =
     (let n = sqrt (sum_list (map (\<lambda>x. x\<^sup>2) (col m 0))); w = min (nrows m) (ncols m)
      in \<lparr>nrows = nrows m, ncols = w,
          rows = map (\<lambda>r. map (\<lambda>x. x / n) (take w r)) (rows m)\<rparr>)"

text \<open>
  A pool that holds the white-matter mask and the anatomical grid at 2 mm, two
  descriptors that share the steps tissue and resolution and differ in the erosion, and
  the states the two calls reach from that pool.
\<close>

definition example_fmt :: "pyval \<Rightarrow> string" where
  "example_fmt v = (case v of PInt i \<Rightarrow> (if i = 2 then ''2'' else ''?'') | PStr s \<Rightarrow> s | _ \<Rightarrow> ''?'')"

definition segmentation :: node where
  "segmentation = Node ''fsl.FAST'' ''segment''"

definition resample_2mm :: node where
  "resample_2mm = Node ''fsl.FLIRT'' ''anat_2mm''"

definition example_pool :: "string \<rightharpoonup> entry" where
  "example_pool = [''WhiteMatter'' \<mapsto> Resource segmentation ''wm_mask'',
                   ''Anatomical_2mm'' \<mapsto> Resource resample_2mm ''out_file'']"

definition example_state :: build_state where
  "example_state =
     \<lparr>connections = [], node_inputs = [], created = [], pool = example_pool\<rparr>"

definition empty_state :: build_state where
  "empty_state = \<lparr>connections = [], node_inputs = [], created = [], pool = Map.empty\<rparr>"

definition wm_2mm :: "string \<rightharpoonup> string" where
  "wm_2mm = [''tissue'' \<mapsto> ''WhiteMatter'', ''resolution'' \<mapsto> ''2mm'']"

definition wm_2mm_eroded :: "string \<rightharpoonup> string" where
  "wm_2mm_eroded = [''tissue'' \<mapsto> ''WhiteMatter'', ''resolution'' \<mapsto> ''2mm'', ''erosion'' \<mapsto> ''E'']"

definition selector_2mm :: "string \<rightharpoonup> pyval" where
  "selector_2mm = [''extraction_resolution'' \<mapsto> PInt 2]"

definition mask_to_epi_wm :: node where
  "mask_to_epi_wm = Node ''fsl.FLIRT'' ''mask_to_epi_flirt_applyxfm_WhiteMatter_2mm''"

definition state_after_first :: build_state where
  "state_after_first =
     \<lparr>connections = [(resample_2mm, ''out_file'', mask_to_epi_wm, ''reference''),
                      (segmentation, ''wm_mask'', mask_to_epi_wm, ''in_file'')],
      node_inputs = [(mask_to_epi_wm, ''apply_isoxfm'', PInt 2)],
      created = [(''WhiteMatter_2mm'', mask_to_epi_wm)],
      pool = example_pool(''WhiteMatter_2mm'' \<mapsto> Resource mask_to_epi_wm ''out_file'')\<rparr>"

definition erode_wm :: node where
  "erode_wm = Node ''afni.Calc'' ''erode_mask_node_WhiteMatter_2mm_E''"

definition state_after_second :: build_state where
  "state_after_second =
     \<lparr>connections = connections state_after_first
                      @ [(mask_to_epi_wm, ''out_file'', erode_wm, ''in_file_a'')],
      node_inputs = node_inputs state_after_first
                      @ [(erode_wm, ''args'', PStr ''-b a+i -c a-i -d a+j -e a-j -f a+k -g a-k''),
                         (erode_wm, ''expr'', PStr ''a*(1-amongst(0,b,c,d,e,f,g))''),
                         (erode_wm, ''outputtype'', PStr ''NIFTI_GZ''),
                         (erode_wm, ''out_file'', PStr ''erode_mask_node.nii.gz'')],
      created = created state_after_first @ [(''WhiteMatter_2mm_E'', erode_wm)],
      pool = (pool state_after_first)(''WhiteMatter_2mm_E'' \<mapsto> Resource erode_wm ''out_file'')\<rparr>"

definition grey_matter_only :: "string \<rightharpoonup> string" where
  "grey_matter_only = [''tissue'' \<mapsto> ''GreyMatter'']"

definition white_matter_only :: "string \<rightharpoonup> string" where
  "white_matter_only = [''tissue'' \<mapsto> ''WhiteMatter'']"

text \<open>
  A pool with the functional series and the global signal mask, for a tissue key that has
  a builder; the states are those after a call whose selector has no \<^verbatim>\<open>threshold\<close>,
  and after a second call with a complete selector.
\<close>

definition inputspec :: node where
  "inputspec = Node ''util.IdentityInterface'' ''inputspec''"

definition functional_pool :: "string \<rightharpoonup> entry" where
  "functional_pool = [''Functional'' \<mapsto> Resource inputspec ''functional_file_path'',
                      ''GlobalSignal'' \<mapsto> Resource inputspec ''global_signal_mask_file_path'']"

definition functional_state :: build_state where
  "functional_state =
     \<lparr>connections = [], node_inputs = [], created = [], pool = functional_pool\<rparr>"

definition variance_only :: "string \<rightharpoonup> string" where
  "variance_only = [''tissue'' \<mapsto> ''FunctionalVariance'']"

definition selector_variance :: "string \<rightharpoonup> pyval" where
  "selector_variance = [''threshold'' \<mapsto> PStr ''2PCT'', ''by_slice'' \<mapsto> PBool False]"

definition variance_node :: node where
  "variance_node = Node ''Function'' ''create_temporal_variance_mask_FunctionalVariance''"

definition state_after_raise :: build_state where
  "state_after_raise =
     \<lparr>connections = [(inputspec, ''functional_file_path'', variance_node, ''functional_file_path''),
                      (inputspec, ''global_signal_mask_file_path'', variance_node, ''mask_file_path'')],
      node_inputs = [],
      created = [(''FunctionalVariance'', variance_node)],
      pool = functional_pool\<rparr>"

definition state_after_retry :: build_state where
  "state_after_retry =
     \<lparr>connections = connections state_after_raise @ connections state_after_raise,
      node_inputs = [(variance_node, ''threshold'', PStr ''2PCT''),
                     (variance_node, ''by_slice'', PBool False)],
      created = [(''FunctionalVariance'', variance_node), (''FunctionalVariance'', variance_node)],
      pool = functional_pool(''FunctionalVariance'' \<mapsto> Resource variance_node ''mask_file_path'')\<rparr>"

text \<open>
  Conversions for the numbers of the examples, a white-matter descriptor with a
  resolution and an eroded mask, a motion descriptor, and thresholds for the censor.
\<close>

definition example_formats :: formats where
  "example_formats =
     \<lparr>fmt_2f = (\<lambda>v. if v = PInt 2 then Some ''2.00'' else None),
      fmt_d = (\<lambda>v. if v = PInt 1 then Some ''1'' else if v = PInt 2 then Some ''2''
                     else if v = PInt 5 then Some ''5'' else None),
      fmt_2g = (\<lambda>v. if v = PFloat (1 / 2) then Some ''0.5'' else None)\<rparr>"

definition white_matter_descriptor :: pyval where
  "white_matter_descriptor =
     PDict [(''extraction_resolution'', PInt 2), (''erode_mask'', PBool True),
            (''summary'', PStr ''Mean'')]"

definition motion_descriptor :: pyval where
  "motion_descriptor = PDict [(''include_squared'', PBool True), (''include_delayed'', PBool True)]"

definition fd_half :: pyval where
  "fd_half = PDict [(''type'', PStr ''FD''), (''value'', PFloat (1 / 2))]"

definition dvars_sd :: pyval where
  "dvars_sd = PDict [(''type'', PStr ''DVARS''), (''value'', PStr ''1.5SD'')]"

definition fd_sd :: pyval where
  "fd_sd = PDict [(''type'', PStr ''FD''), (''value'', PStr ''2SD'')]"

definition censor_descriptor :: "pyval list \<Rightarrow> (string \<times> pyval) list" where
  "censor_descriptor ths =
     [(''method'', PStr ''Kill''), (''number_of_previous_trs_to_remove'', PInt 1),
      (''number_of_subsequent_trs_to_remove'', PInt 2), (''thresholds'', PList ths)]"

definition fd_sd15 :: pyval where
  "fd_sd15 = PDict [(''type'', PStr ''FD''), (''value'', PStr ''1.5SD'')]"

section \<open>Properties of the censoring kernel\<close>

lemma where_gt_flat: "where_gt [0, 0, 0] 1 = []"
  by (simp add: where_gt_def upt_conv_Cons)

lemma where_gt_dvars: "where_gt [0, 5, 5] 1 = [Suc 0, 2]"
  by (simp add: where_gt_def upt_conv_Cons)

text \<open>
  When the FD stage leaves at least one index, the DVARS stage does intersect: the
  final set is the intersection of the two offending sets.
\<close>

lemma dvars_stage_intersects:
  assumes "fs p = Some raw" and "p \<noteq> []" and "truthy dvt"
    and "translate_threshold pf (0 # raw) dvt = Some t" and "fd_off \<noteq> []"
  shows "\<exists>off. dvars_stage fs pf (Some p) dvt (fd_off, n) = Inr (off, Suc (length raw))
            \<and> set off = set fd_off \<inter> set (where_gt (0 # raw) t)"
  using assms by (auto simp: dvars_stage_def)

text \<open>
  C1. With both series and both thresholds supplied the final offending set should be the
  intersection of the FD and the DVARS offending sets, also when the FD set is empty.
  The code tests \<^verbatim>\<open>if not offending_time_points\<close> to see whether an FD stage ran, so an
  FD series that flags nothing is treated as no FD series: at FD \<^verbatim>\<open>[0, 0, 0]\<close> and
  DVARS \<^verbatim>\<open>[5, 5]\<close>, both with threshold 1, the FD set is empty, the DVARS set is
  \<open>{1, 2}\<close>, and the function keeps \<open>{1, 2}\<close> and censors both time points, where the
  intersection is empty.
\<close>

theorem fd_flagging_nothing_keeps_dvars_set:
  "offending_time_points example_fs no_float (Some ''fd_flat.1D'') (Some ''dvars.1D'')
       (PInt 1) (PInt 1) = Inr ([Suc 0, 2], 3)
   \<and> set (where_gt [0, 0, 0] 1) \<inter> set (where_gt (0 # [5, 5]) 1) = {}
   \<and> find_offending_time_points example_fs no_float (Some ''fd_flat.1D'') (Some ''dvars.1D'')
       (PInt 1) (PInt 1) 0 0 = Inr [1, 0, 0]"
proof -
  have st: "offending_time_points example_fs no_float (Some ''fd_flat.1D'') (Some ''dvars.1D'')
       (PInt 1) (PInt 1) = Inr ([Suc 0, 2], 3)"
    by (simp add: offending_time_points_def fd_stage_def dvars_stage_def example_fs_def
        where_gt_flat where_gt_dvars)
  have cv: "censor_vector ([Suc 0, 2], 3) 0 0 = [1, 0, 0]"
    by (simp add: censor_vector_def extended_censors_def upt_conv_Cons)
  show ?thesis
    by (simp add: st cv find_offending_time_points_def where_gt_flat)
qed

text \<open>
  C10. A series supplied together with the numeric threshold 0 raises the
  missing-threshold error of that series: for FD whenever the FD file exists, for DVARS
  whenever the DVARS file exists and the FD stage before it did not raise. The result
  with a threshold 0 (integer or float) is in every case the result with the threshold
  \<^verbatim>\<open>None\<close>.
\<close>

theorem zero_threshold_is_missing_threshold:
  "(fs fdp = Some xs \<and> fdp \<noteq> [] \<longrightarrow>
      find_offending_time_points fs pf (Some fdp) dv (PInt 0) dvt p s
        = Inl (ValueError FD_threshold_missing)
      \<and> find_offending_time_points fs pf (Some fdp) dv (PFloat 0) dvt p s
        = Inl (ValueError FD_threshold_missing))
   \<and> (fd_stage fs pf fd fdt = Inr st \<and> fs dvp = Some ys \<and> dvp \<noteq> [] \<longrightarrow>
      find_offending_time_points fs pf fd (Some dvp) fdt (PInt 0) p s
        = Inl (ValueError DVARS_threshold_missing)
      \<and> find_offending_time_points fs pf fd (Some dvp) fdt (PFloat 0) p s
        = Inl (ValueError DVARS_threshold_missing))
   \<and> find_offending_time_points fs pf fd dv (PInt 0) dvt p s
        = find_offending_time_points fs pf fd dv PNone dvt p s
   \<and> find_offending_time_points fs pf fd dv (PFloat 0) dvt p s
        = find_offending_time_points fs pf fd dv PNone dvt p s
   \<and> find_offending_time_points fs pf fd dv fdt (PInt 0) p s
        = find_offending_time_points fs pf fd dv fdt PNone p s
   \<and> find_offending_time_points fs pf fd dv fdt (PFloat 0) p s
        = find_offending_time_points fs pf fd dv fdt PNone p s"
  by (simp add: find_offending_time_points_def offending_time_points_def fd_stage_def
      dvars_stage_def split: option.splits sum.splits)

theorem zero_threshold_is_missing_threshold_witness:
  "find_offending_time_points example_fs no_float (Some ''fd_spike.1D'') None (PInt 0) PNone 1 1
     = Inl (ValueError FD_threshold_missing)
   \<and> find_offending_time_points example_fs no_float (Some ''fd_spike.1D'') (Some ''dvars.1D'')
       (PInt 1) (PFloat 0) 1 1 = Inl (ValueError DVARS_threshold_missing)"
proof -
  have a: "example_fs ''fd_spike.1D'' = Some [0, 0, 5, 0, 0] \<and> ''fd_spike.1D'' \<noteq> []"
    by (simp add: example_fs_def)
  have b: "fd_stage example_fs no_float (Some ''fd_spike.1D'') (PInt 1) = Inr ([2], 5)
           \<and> example_fs ''dvars.1D'' = Some [5, 5] \<and> ''dvars.1D'' \<noteq> []"
    by (simp add: fd_stage_def example_fs_def where_gt_def upt_conv_Cons)
  from a b
    zero_threshold_is_missing_threshold [of example_fs "''fd_spike.1D''" "[0, 0, 5, 0, 0]"
      no_float None PNone 1 1 "Some ''fd_spike.1D''" "PInt 1" "([2], 5)" "''dvars.1D''" "[5, 5]"]
  show ?thesis by blast
qed

section \<open>Properties of the temporal variance mask\<close>

lemma length_slice_mask:
  "length vs = length ms \<Longrightarrow> length (slice_mask m v vs ms) = length ms"
  by (simp add: slice_mask_def Let_def)

lemma nth_slice_mask_none:
  "\<not> list_ex (\<lambda>b. b) ms \<Longrightarrow> i < length ms \<Longrightarrow> slice_mask m v vs ms ! i = False"
  by (simp add: slice_mask_def)

lemma nth_slice_mask_some:
  "list_ex (\<lambda>b. b) ms \<Longrightarrow> length vs = length ms \<Longrightarrow> i < length ms \<Longrightarrow>
   slice_mask m v vs ms ! i =
     (ms ! i \<and> vs ! i > slice_threshold_value m v (map fst (filter snd (zip vs ms))))"
  by (simp add: slice_mask_def Let_def)

lemma not_list_ex_nth: "\<not> list_ex (\<lambda>b. b) ms \<Longrightarrow> i < length ms \<Longrightarrow> \<not> ms ! i"
  unfolding list_ex_iff using nth_mem by blast

lemma nth_slice_mask:
  assumes "length vs = length ms" and "i < length ms"
  shows "slice_mask m v vs ms ! i =
     (ms ! i \<and> vs ! i > slice_threshold_value m v (map fst (filter snd (zip vs ms))))"
proof (cases "list_ex (\<lambda>b. b) ms")
  case True
  then show ?thesis using assms by (rule nth_slice_mask_some)
next
  case False
  from nth_slice_mask_none [OF False assms(2)] not_list_ex_nth [OF False assms(2)]
  show ?thesis by simp
qed
lemma column_one: "length xs = n \<Longrightarrow> column n (Suc 0) 0 xs = xs"
  by (auto simp: column_def intro: nth_equalityI)

lemma length_temporal_variance: "length (temporal_variance n t d) = n"
  by (simp add: temporal_variance_def)

lemma variance_mask_data_global:
  assumes "length variance = n" and "length mask_data = n" and "n = x * y * z"
  shows "variance_mask_data m v False x y z variance mask_data =
     map (\<lambda>j. if mask_data ! j
                  \<and> variance ! j > slice_threshold_value m v
                                     (map fst (filter snd (zip variance mask_data)))
               then 1 else 0) [0..<n]"
proof -
  have "variance_mask_data m v False x y z variance mask_data =
          map (\<lambda>j. if slice_mask m v variance mask_data ! j then 1 else 0) [0..<n]"
    using assms by (simp add: variance_mask_data_def column_one Let_def)
  also have "\<dots> = map (\<lambda>j. if mask_data ! j
                  \<and> variance ! j > slice_threshold_value m v
                                     (map fst (filter snd (zip variance mask_data)))
               then 1 else 0) [0..<n]"
    using assms by (simp add: nth_slice_mask)
  finally show ?thesis .
qed
lemma check_parameters_pct:
  assumes "nifti_path (Some fp)" and "nifti_path (Some mp)" and "s \<noteq> []"
    and "threshold_method_value (PStr s) = (PCT, PStr g)" and "pf g = Some p"
    and "0 \<le> p" and "p < 100"
  shows "check_parameters pf (Some fp) (Some mp) (PStr s) (PBool b) = Inr (PCT, p, b)"
  using assms by (simp add: check_parameters_def)

lemma nifti_path_given: "nifti_path (Some p) \<Longrightarrow> p \<noteq> []"
  by (simp add: nifti_path_def)


lemma nifti_path_absent: "\<not> nifti_path None" "\<not> nifti_path (Some [])"
  by (simp_all add: nifti_path_def)

lemma nifti_example_paths:
  "nifti_path (Some ''func.nii.gz'')" "nifti_path (Some ''mask.nii.gz'')"
  by (simp_all add: nifti_path_def endswith_def)

lemma example_variance:
  "temporal_variance 3 3 [0, 0, 0, 0, 1, 2, 0, 2, 4] = [0, 2 / 3, 8 / 3]"
  by (simp add: temporal_variance_def var_def mean_def upt_conv_Cons power2_eq_square)

lemma example_percentile_50: "percentile [0, 2 / 3, 8 / 3] 50 = 2 / 3"
  by (simp add: percentile_def)

lemma example_percentile_75: "percentile [0, 2 / 3, 8 / 3] 75 = 5 / 3"
  by (simp add: percentile_def)

lemma method_50PCT: "threshold_method_value (PStr ''50PCT'') = (PCT, PStr ''50'')"
  by (simp add: threshold_method_value_def number_unit_match_def is_digit_def is_space_def)

lemma method_25PCT: "threshold_method_value (PStr ''25PCT'') = (PCT, PStr ''25'')"
  by (simp add: threshold_method_value_def number_unit_match_def is_digit_def is_space_def)

text \<open>
  C5 (as the code has it). Called without a mask (\<^verbatim>\<open>None\<close> or the empty string), the
  function never produces a mask: the guard of lines 169 to 174 raises the improper-mask
  error, for every file system, threshold and \<^verbatim>\<open>by_slice\<close>, unless the guard on the
  functional path before it has already raised. The branch that would take the voxels
  of non-zero variance is never reached.
\<close>

theorem absent_mask_is_rejected:
  "create_temporal_variance_mask fs pf fp None threshold by_slice
     = Inl (ValueError (if nifti_path fp then Improper_mask_file else Improper_functional_file))
   \<and> create_temporal_variance_mask fs pf fp (Some []) threshold by_slice
     = Inl (ValueError (if nifti_path fp then Improper_mask_file else Improper_functional_file))"
  by (simp add: create_temporal_variance_mask_def check_parameters_def nifti_path_absent)

theorem absent_mask_is_rejected_witness:
  "create_temporal_variance_mask example_img_fs example_float (Some ''func.nii.gz'') (Some [])
     (PFloat (1 / 2)) (PBool True) = Inl (ValueError Improper_mask_file)"
  using absent_mask_is_rejected [of example_img_fs example_float "Some ''func.nii.gz''"
      "PFloat (1 / 2)" "PBool True"]
  by (simp add: nifti_example_paths)

text \<open>
  The claim as stated fails: for the example series, a proper functional path, a
  threshold and no mask, the call raises.
\<close>

theorem no_mask_raises_counterexample:
  "create_temporal_variance_mask example_img_fs example_float (Some ''func.nii.gz'') None
     (PStr ''50PCT'') (PBool False) = Inl (ValueError Improper_mask_file)"
  by (simp add: create_temporal_variance_mask_def check_parameters_def nifti_example_paths
      nifti_path_absent)

text \<open>
  C6 (as the code has it). With a threshold \<^verbatim>\<open>"<p>PCT"\<close>, \<open>0 \<le> p < 100\<close>, and
  \<^verbatim>\<open>by_slice=False\<close>, for a functional image of shape \<open>[x, y, z, t]\<close> with at least three
  time points and a mask of the same grid, the call succeeds and the output holds exactly
  the voxels of the mask whose temporal variance is strictly greater than the percentile
  \<open>100 - p\<close> of the variances inside the mask. A voxel whose variance equals the
  percentile is left out.
\<close>

theorem pct_threshold_keeps_strictly_greater:
  assumes paths: "nifti_path (Some fp)" "nifti_path (Some mp)"
    and thr: "s \<noteq> []" "threshold_method_value (PStr s) = (PCT, PStr g)" "pf g = Some p"
             "0 \<le> p" "p < 100"
    and func: "fs fp = Some f" "shape f = [x, y, z, t]" "3 \<le> t"
    and mask: "fs mp = Some mk" "shape mk = [x, y, z]" "affine mk = affine f"
              "length (voxels mk) = x * y * z"
  shows "create_temporal_variance_mask fs pf (Some fp) (Some mp) (PStr s) (PBool False) =
     Inr \<lparr>shape = [x, y, z], affine = affine f,
          voxels = map (\<lambda>j. if voxels mk ! j \<noteq> 0
                \<and> temporal_variance (x * y * z) t (voxels f) ! j
                    > percentile (map fst (filter snd
                         (zip (temporal_variance (x * y * z) t (voxels f))
                              (map (\<lambda>v. v \<noteq> 0) (voxels mk))))) (100 - p)
              then 1 else 0) [0..<x * y * z]\<rparr>"
proof -
  let ?var = "temporal_variance (x * y * z) t (voxels f)"
  let ?md = "map (\<lambda>v. v \<noteq> 0) (voxels mk)"
  have cp: "check_parameters pf (Some fp) (Some mp) (PStr s) (PBool False) = Inr (PCT, p, False)"
    using paths thr by (rule check_parameters_pct)
  have lm: "load_mask fs (Some mp) f ?var = Inr (Some mk, ?md)"
    using mask func nifti_path_given [OF paths(2)] by (simp add: load_mask_def)
  have vm: "variance_mask_data PCT p False x y z ?var ?md =
      map (\<lambda>j. if ?md ! j \<and> ?var ! j > slice_threshold_value PCT p
                                     (map fst (filter snd (zip ?var ?md)))
               then 1 else 0) [0..<x * y * z]"
    by (rule variance_mask_data_global) (simp_all add: length_temporal_variance mask(4))
  have vm': "variance_mask_data PCT p False x y z ?var ?md =
      map (\<lambda>j. if voxels mk ! j \<noteq> 0 \<and> ?var ! j > percentile
                                     (map fst (filter snd (zip ?var ?md))) (100 - p)
               then 1 else 0) [0..<x * y * z]"
    unfolding vm using mask(4) by (simp add: slice_threshold_value_def)
  have t3: "\<not> t < 3" using func(3) by simp
  show ?thesis
    unfolding create_temporal_variance_mask_def cp
    by (simp add: func(1) func(2) t3 lm vm' mask(2) mask(3))
qed

theorem pct_threshold_keeps_strictly_greater_witness:
  "create_temporal_variance_mask example_img_fs example_float (Some ''func.nii.gz'')
     (Some ''mask.nii.gz'') (PStr ''25PCT'') (PBool False)
   = Inr \<lparr>shape = [3, 1, 1], affine = identity_affine, voxels = [0, 0, 1]\<rparr>"
proof -
  have a: "''25PCT'' \<noteq> []" "example_float ''25'' = Some 25" "(0::real) \<le> 25" "(25::real) < 100"
    by (simp_all add: example_float_def)
  have f: "example_img_fs ''func.nii.gz'' = Some example_func"
    "shape example_func = [3, 1, 1, 3]" "(3::nat) \<le> 3"
    by (simp_all add: example_img_fs_def example_func_def)
  have m: "example_img_fs ''mask.nii.gz'' = Some example_mask"
    "shape example_mask = [3, 1, 1]" "affine example_mask = affine example_func"
    "length (voxels example_mask) = 3 * 1 * 1"
    by (simp_all add: example_img_fs_def example_mask_def example_func_def)
  have v: "voxels example_func = [0, 0, 0, 0, 1, 2, 0, 2, 4]" "voxels example_mask = [1, 1, 1]"
    "affine example_func = identity_affine"
    by (simp_all add: example_func_def example_mask_def)
  show ?thesis
    using pct_threshold_keeps_strictly_greater [where fs = example_img_fs
        and pf = example_float and f = example_func and mk = example_mask and p = 25,
        OF nifti_example_paths a(1) method_25PCT a(2) a(3) a(4) f m]
    by (simp add: v example_variance example_percentile_75 upt_conv_Cons)
qed

text \<open>
  The claim as stated fails: in the example the variances are 0, 2/3 and 8/3 and their
  50th percentile is 2/3; the second voxel is in the mask and at the percentile, and is
  not in the output.
\<close>

theorem voxel_at_percentile_counterexample:
  "create_temporal_variance_mask example_img_fs example_float (Some ''func.nii.gz'')
     (Some ''mask.nii.gz'') (PStr ''50PCT'') (PBool False)
   = Inr \<lparr>shape = [3, 1, 1], affine = identity_affine, voxels = [0, 0, 1]\<rparr>
   \<and> temporal_variance 3 3 (voxels example_func) ! 1 = 2 / 3
   \<and> percentile (temporal_variance 3 3 (voxels example_func)) 50 = 2 / 3
   \<and> voxels example_mask ! 1 \<noteq> 0"
proof -
  have cp: "check_parameters example_float (Some ''func.nii.gz'') (Some ''mask.nii.gz'')
      (PStr ''50PCT'') (PBool False) = Inr (PCT, 50, False)"
    by (simp add: check_parameters_def nifti_example_paths method_50PCT example_float_def)
  have vm: "variance_mask_data PCT 50 False 3 (Suc 0) (Suc 0) [0, 2 / 3, 8 / 3]
      [True, True, True] = [0, 0, 1]"
    by (simp add: variance_mask_data_def slice_mask_def column_def slice_threshold_value_def
        example_percentile_50 upt_conv_Cons)
  have r: "create_temporal_variance_mask example_img_fs example_float (Some ''func.nii.gz'')
     (Some ''mask.nii.gz'') (PStr ''50PCT'') (PBool False)
   = Inr \<lparr>shape = [3, 1, 1], affine = identity_affine, voxels = [0, 0, 1]\<rparr>"
    by (simp add: create_temporal_variance_mask_def cp example_img_fs_def example_func_def
        example_mask_def load_mask_def example_variance vm)
  show ?thesis
    by (simp add: r example_func_def example_mask_def example_variance example_percentile_50)
qed

section \<open>Properties of the summary time series\<close>

lemma detrend_norm_mean_result:
  "summarize_block matrix_norm svd_u blk (PStr ''DetrendNormMean'') =
     Inr (Series (mean_axis0 (divide_by (transposed (detrend blk))
                                (matrix_norm (transposed (detrend blk))))))"
  by (simp add: summarize_block_def summary_dict_def Let_def)

lemma norm_mean_result:
  "summarize_block matrix_norm svd_u blk (PStr ''NormMean'') =
     Inr (Series (mean_axis0 (divide_by blk (matrix_norm blk))))"
  by (simp add: summarize_block_def summary_dict_def Let_def)

lemma ncols_after:
  "ncols (divide_by m c) = ncols m" "ncols (transposed m) = nrows m"
  "nrows (detrend m) = nrows m"
  by (simp_all add: divide_by_def transposed_def detrend_def)

text \<open>
  For every block, \<^verbatim>\<open>DetrendNormMean\<close> returns as many values as the block has rows
  (voxels), and \<^verbatim>\<open>NormMean\<close> as many as it has columns (time points).
\<close>

lemma detrend_norm_mean_length:
  "\<exists>xs. summarize_block matrix_norm svd_u blk (PStr ''DetrendNormMean'') = Inr (Series xs)
        \<and> length xs = nrows blk"
  by (simp add: detrend_norm_mean_result mean_axis0_def ncols_after)

lemma norm_mean_length:
  "\<exists>xs. summarize_block matrix_norm svd_u blk (PStr ''NormMean'') = Inr (Series xs)
        \<and> length xs = ncols blk"
  by (simp add: norm_mean_result mean_axis0_def ncols_after)

text \<open>
  C8. \<^verbatim>\<open>DetrendNormMean\<close> should return one value per time point. Line 507 transposes
  the detrended block (\<^verbatim>\<open>.T\<close>), so that \<^verbatim>\<open>mean(0)\<close> on line 510 averages over the time
  points and not over the voxels: for the block of two voxels and three time points the
  result has two values, one per voxel, where \<^verbatim>\<open>NormMean\<close> on the same block, which
  does not transpose, has three.
\<close>

theorem detrend_norm_mean_one_value_per_voxel:
  "(\<exists>a b. summarize_block matrix_norm svd_u two_by_three (PStr ''DetrendNormMean'')
             = Inr (Series [a, b]))
   \<and> (\<exists>a b c. summarize_block matrix_norm svd_u two_by_three (PStr ''NormMean'')
             = Inr (Series [a, b, c]))"
  by (simp add: detrend_norm_mean_result norm_mean_result mean_axis0_def ncols_after
      two_by_three_def upt_conv_Cons)

lemma pc_result:
  assumes "map_of d ''method'' = Some (PStr ''PC'')"
    and "map_of d ''components'' = Some (PInt k)"
  shows "summarize_block matrix_norm svd_u blk (PDict d) =
     Inr (Components (slice_columns (svd_u (centred blk)) k))"
  using assms by (simp add: summarize_block_def summary_dict_def Let_def centred_def)

lemma centred_one_by_three:
  "centred one_by_three = \<lparr>nrows = 3, ncols = 1, rows = [[- 4 / 3], [- 1 / 3], [5 / 3]]\<rparr>"
  by (simp add: centred_def one_by_three_def transposed_def tile_def mean_axis1_def mean_def
      minus_matrix_def col_def upt_conv_Cons eval_nat_numeral)

lemma centred_two_by_three:
  "centred two_by_three
     = \<lparr>nrows = 3, ncols = 2, rows = [[- 4 / 3, - 2], [- 1 / 3, 1], [5 / 3, 1]]\<rparr>"
  by (simp add: centred_def two_by_three_def transposed_def tile_def mean_axis1_def mean_def
      minus_matrix_def col_def upt_conv_Cons eval_nat_numeral)

lemma dims_two_by_three: "nrows two_by_three = 2" "ncols two_by_three = 3"
  by (simp_all add: two_by_three_def)

text \<open>
  C9 (as the code has it). For a block of \<open>V\<close> voxels by \<open>T\<close> time points and a
  summary \<^verbatim>\<open>{method: "PC", components: k}\<close> with \<open>k > 0\<close>, whenever the decomposition
  returns its reduced \<open>U\<close> (\<open>T\<close> rows of \<open>min T V\<close> entries) for the centred block, the
  function returns a matrix with exactly \<open>T\<close> rows and \<open>min k (min T V)\<close> columns:
  \<open>k\<close> columns when \<open>k\<close> is at most \<open>T\<close> and \<open>V\<close>, fewer otherwise.
\<close>

theorem pc_components_shape:
  assumes d: "map_of d ''method'' = Some (PStr ''PC'')"
             "map_of d ''components'' = Some (PInt k)"
    and k: "0 < k"
    and u: "nrows (svd_u (centred blk)) = ncols blk"
           "ncols (svd_u (centred blk)) = min (ncols blk) (nrows blk)"
           "length (rows (svd_u (centred blk))) = ncols blk"
           "list_all (\<lambda>r. length r = min (ncols blk) (nrows blk)) (rows (svd_u (centred blk)))"
  shows "\<exists>c. summarize_block matrix_norm svd_u blk (PDict d) = Inr (Components c)
           \<and> nrows c = ncols blk \<and> length (rows c) = ncols blk
           \<and> ncols c = min (nat k) (min (ncols blk) (nrows blk))
           \<and> list_all (\<lambda>r. length r = min (nat k) (min (ncols blk) (nrows blk))) (rows c)"
proof -
  let ?c = "slice_columns (svd_u (centred blk)) k"
  have "nrows ?c = ncols blk" "length (rows ?c) = ncols blk"
    "ncols ?c = min (nat k) (min (ncols blk) (nrows blk))"
    using k u by (simp_all add: slice_columns_def Let_def)
  moreover have "list_all (\<lambda>r. length r = min (nat k) (min (ncols blk) (nrows blk))) (rows ?c)"
    using k u(2,4) by (auto simp: slice_columns_def Let_def list_all_iff)
  ultimately show ?thesis using pc_result [OF d] by simp
qed

theorem pc_components_shape_witness:
  "\<exists>c. summarize_block (\<lambda>m. 1) single_column_u two_by_three
          (PDict [(''components'', PInt 1), (''method'', PStr ''PC'')]) = Inr (Components c)
       \<and> nrows c = 3 \<and> length (rows c) = 3 \<and> ncols c = 1
       \<and> list_all (\<lambda>r. length r = 1) (rows c)"
proof -
  have d: "map_of [(''components'', PInt 1), (''method'', PStr ''PC'')] ''method''
             = Some (PStr ''PC'')"
    "map_of [(''components'', PInt 1), (''method'', PStr ''PC'')] ''components''
             = Some (PInt 1)"
    by simp_all
  have u: "nrows (single_column_u (centred two_by_three)) = ncols two_by_three"
    "ncols (single_column_u (centred two_by_three))
       = min (ncols two_by_three) (nrows two_by_three)"
    "length (rows (single_column_u (centred two_by_three))) = ncols two_by_three"
    "list_all (\<lambda>r. length r = min (ncols two_by_three) (nrows two_by_three))
       (rows (single_column_u (centred two_by_three)))"
    by (simp_all add: centred_two_by_three single_column_u_def Let_def dims_two_by_three)
  have k: "(0::int) < 1" by simp
  from pc_components_shape [where svd_u = single_column_u and blk = two_by_three
      and matrix_norm = "\<lambda>m. 1", OF d k u]
  show ?thesis by (simp add: dims_two_by_three)
qed

text \<open>
  The claim as stated fails: one voxel, three time points and two components requested
  give a matrix with three rows and one column.
\<close>

theorem pc_fewer_columns_counterexample:
  "\<exists>c. summarize_block (\<lambda>m. 1) single_column_u one_by_three
          (PDict [(''method'', PStr ''PC''), (''components'', PInt 2)]) = Inr (Components c)
       \<and> nrows c = 3 \<and> ncols c = 1 \<and> list_all (\<lambda>r. length r = 1) (rows c)"
  by (simp add: pc_result centred_one_by_three single_column_u_def slice_columns_def Let_def)

section \<open>Properties of the mask derivation\<close>

subsection \<open>Lists of statements\<close>

lemma insert_keys_append: "insert_keys (as @ bs) = insert_keys as @ insert_keys bs"
  by (induction as rule: insert_keys.induct) simp_all

lemma creations_append: "creations (as @ bs) = creations as @ creations bs"
  by (induction as rule: creations.induct) simp_all

lemma raises_append: "raises (as @ bs) = (raises as \<or> raises bs)"
  by (induction as rule: raises.induct) simp_all

lemma perform_pool:
  assumes "perform sel a st = (r, st')"
  shows "pool st' = pool st \<or> (\<exists>k n out. a = Insert k n out \<and> pool st' = (pool st)(k \<mapsto> Resource n out))"
  using assms by (cases a) (auto split: option.splits entry.splits prod.splits)

lemma perform_keeps:
  assumes "perform sel a st = (r, st')" and "k \<notin> set (insert_keys [a])"
  shows "pool st' k = pool st k"
  using assms by (cases a) (auto split: option.splits entry.splits prod.splits)

lemma perform_created:
  assumes "perform sel a st = (r, st')"
  shows "created st' = created st @ creations [a]"
  using assms by (cases a) (auto split: option.splits entry.splits prod.splits)

lemma perform_raise:
  assumes "perform sel a st = (None, st')"
  shows "\<not> raises [a]"
  using assms by (cases a) auto

lemma perform_all_append:
  "perform_all sel (as @ bs) st =
     (case perform_all sel as st of
        (Some e, st') \<Rightarrow> (Some e, st')
      | (None, st') \<Rightarrow> perform_all sel bs st')"
  by (induction as arbitrary: st) (auto split: prod.splits option.splits)

lemma perform_all_keeps:
  "perform_all sel as st = (r, st') \<Longrightarrow> k \<notin> set (insert_keys as) \<Longrightarrow> pool st' k = pool st k"
proof (induction as arbitrary: st)
  case Nil
  then show ?case by simp
next
  case (Cons a as)
  obtain r1 st1 where p: "perform sel a st = (r1, st1)" by (cases "perform sel a st")
  from Cons.prems(2) have ka: "k \<notin> set (insert_keys [a])" and kas: "k \<notin> set (insert_keys as)"
    by (cases a; simp)+
  have k1: "pool st1 k = pool st k" using perform_keeps [OF p ka] .
  show ?case
  proof (cases r1)
    case None
    with Cons.prems(1) p have "perform_all sel as st1 = (r, st')" by simp
    from Cons.IH [OF this kas] k1 show ?thesis by simp
  next
    case (Some e)
    with Cons.prems(1) p have "st' = st1" by simp
    with k1 show ?thesis by simp
  qed
qed

lemma perform_all_created:
  "perform_all sel as st = (r, st') \<Longrightarrow>
   \<exists>cs. created st' = created st @ cs \<and> set cs \<subseteq> set (creations as)
        \<and> (r = None \<longrightarrow> cs = creations as \<and> \<not> raises as)"
proof (induction as arbitrary: st)
  case Nil
  then show ?case by simp
next
  case (Cons a as)
  obtain r1 st1 where p: "perform sel a st = (r1, st1)" by (cases "perform sel a st")
  note c1 = perform_created [OF p]
  have split: "creations (a # as) = creations [a] @ creations as"
    using creations_append [of "[a]" as] by simp
  have rsplit: "raises (a # as) = (raises [a] \<or> raises as)"
    using raises_append [of "[a]" as] by simp
  show ?case
  proof (cases r1)
    case None
    with Cons.prems(1) p have rest: "perform_all sel as st1 = (r, st')" by simp
    from Cons.IH [OF rest] obtain cs where cs: "created st' = created st1 @ cs"
      "set cs \<subseteq> set (creations as)" "r = None \<longrightarrow> cs = creations as \<and> \<not> raises as"
      by blast
    from p None have nr: "\<not> raises [a]" using perform_raise by blast
    have "created st' = created st @ (creations [a] @ cs)" using cs(1) c1 by simp
    moreover have "set (creations [a] @ cs) \<subseteq> set (creations (a # as))"
      using cs(2) split by auto
    moreover have "r = None \<longrightarrow> creations [a] @ cs = creations (a # as) \<and> \<not> raises (a # as)"
      using cs(3) split rsplit nr by simp
    ultimately show ?thesis by blast
  next
    case (Some e)
    with Cons.prems(1) p have "st' = st1" "r = Some e" by simp_all
    with c1 split show ?thesis by (intro exI [of _ "creations [a]"]) auto
  qed
qed

lemma perform_all_last_insert:
  assumes run: "perform_all sel as st = (r, st')"
    and ne: "as \<noteq> []" and l: "last as = Insert k n out" and b: "insert_keys (butlast as) = []"
    and absent: "pool st k = None" and present: "pool st' k \<noteq> None"
  shows "r = None \<and> pool st' k = Some (Resource n out) \<and> created st' = created st @ creations as"
proof -
  have as: "as = butlast as @ [Insert k n out]" using ne l by (metis append_butlast_last_id)
  obtain r1 st1 where p: "perform_all sel (butlast as) st = (r1, st1)"
    by (cases "perform_all sel (butlast as) st")
  have keep: "pool st1 k = None" using perform_all_keeps [OF p] b absent by simp
  show ?thesis
  proof (cases r1)
    case (Some e)
    have "perform_all sel (butlast as @ [Insert k n out]) st = (Some e, st1)"
      using p Some by (simp add: perform_all_append)
    with as run have "st' = st1" by simp
    with keep present show ?thesis by simp
  next
    case None
    have "perform_all sel (butlast as @ [Insert k n out]) st
        = (None, st1\<lparr>pool := (pool st1)(k \<mapsto> Resource n out)\<rparr>)"
      using p None by (simp add: perform_all_append)
    with as run have r: "r = None" and st': "st' = st1\<lparr>pool := (pool st1)(k \<mapsto> Resource n out)\<rparr>"
      by simp_all
    from perform_all_created [OF run] r have "created st' = created st @ creations as" by auto
    with r st' show ?thesis by simp
  qed
qed

lemma variance_shape:
  "\<exists>n out. variance_actions km \<noteq> [] \<and> last (variance_actions km) = Insert km n out
     \<and> insert_keys (butlast (variance_actions km)) = []
     \<and> fst ` set (creations (variance_actions km)) \<subseteq> {km}
     \<and> count_list (creations (variance_actions km)) (km, n) = 1"
  by (intro exI [of _ "Node ''Function'' (''create_temporal_variance_mask_'' @ node_key km)"]
        exI [of _ "''mask_file_path''"])
     (simp add: variance_actions_def Let_def)

lemma csf_shape:
  "\<exists>n out. csf_actions km ants \<noteq> [] \<and> last (csf_actions km ants) = Insert km n out
     \<and> insert_keys (butlast (csf_actions km ants)) = []
     \<and> fst ` set (creations (csf_actions km ants)) \<subseteq> {km}
     \<and> count_list (creations (csf_actions km ants)) (km, n) = 1"
  by (intro exI [of _ "Node ''afni.Calc'' ''mask_cfs_with_lat_ven''"] exI [of _ "''out_file''"])
     (simp add: csf_actions_def Let_def butlast_append insert_keys_append creations_append)

lemma erosion_shape:
  "\<exists>n out. erosion_actions km prev \<noteq> [] \<and> last (erosion_actions km prev) = Insert km n out
     \<and> insert_keys (butlast (erosion_actions km prev)) = []
     \<and> fst ` set (creations (erosion_actions km prev)) \<subseteq> {km}
     \<and> count_list (creations (erosion_actions km prev)) (km, n) = 1"
  by (intro exI [of _ "Node ''afni.Calc'' (''erode_mask_node_'' @ node_key km)"]
        exI [of _ "''out_file''"])
     (simp add: erosion_actions_def Let_def)

lemma resolution_shape:
  assumes "sel ''extraction_resolution'' \<noteq> None"
  shows "\<exists>n out. resolution_actions fmt sel km prev \<noteq> []
     \<and> last (resolution_actions fmt sel km prev) = Insert km n out
     \<and> insert_keys (butlast (resolution_actions fmt sel km prev)) = []
     \<and> fst ` set (creations (resolution_actions fmt sel km prev)) \<subseteq> {km}
     \<and> count_list (creations (resolution_actions fmt sel km prev)) (km, n) = 1"
  using assms
  by (intro exI [of _ "Node ''fsl.FLIRT'' (''mask_to_epi_flirt_applyxfm_'' @ node_key km)"]
        exI [of _ "''out_file''"])
     (auto simp: resolution_actions_def Let_def butlast_append insert_keys_append creations_append
        split: if_splits)

lemma resolution_raises:
  "sel ''extraction_resolution'' = None \<Longrightarrow>
   raises (resolution_actions fmt sel km prev) \<and> insert_keys (resolution_actions fmt sel km prev) = []
   \<and> fst ` set (creations (resolution_actions fmt sel km prev)) \<subseteq> {km}"
  by (simp add: resolution_actions_def Let_def)

text \<open>
  The statements of a step are of one of three kinds: none at all (a tissue key without a
  builder); a builder that raises before it stores anything; or a builder whose last
  statement stores the artifact under the key of the step, the only store, and which
  constructs the node of the artifact once.
\<close>

lemma step_actions_shape:
  "step_actions fmt sel ants step km prev = []
   \<or> (raises (step_actions fmt sel ants step km prev)
        \<and> insert_keys (step_actions fmt sel ants step km prev) = []
        \<and> fst ` set (creations (step_actions fmt sel ants step km prev)) \<subseteq> {km})
   \<or> (\<exists>n out. step_actions fmt sel ants step km prev \<noteq> []
        \<and> last (step_actions fmt sel ants step km prev) = Insert km n out
        \<and> insert_keys (butlast (step_actions fmt sel ants step km prev)) = []
        \<and> fst ` set (creations (step_actions fmt sel ants step km prev)) \<subseteq> {km}
        \<and> count_list (creations (step_actions fmt sel ants step km prev)) (km, n) = 1)"
proof -
  have "step_actions fmt sel ants step km prev = []
      \<or> step_actions fmt sel ants step km prev = variance_actions km
      \<or> step_actions fmt sel ants step km prev = csf_actions km ants
      \<or> step_actions fmt sel ants step km prev = resolution_actions fmt sel km prev
      \<or> step_actions fmt sel ants step km prev = erosion_actions km prev"
    by (simp add: step_actions_def tissue_actions_def)
  then consider (none) "step_actions fmt sel ants step km prev = []"
    | (variance) "step_actions fmt sel ants step km prev = variance_actions km"
    | (csf) "step_actions fmt sel ants step km prev = csf_actions km ants"
    | (resolution) "step_actions fmt sel ants step km prev = resolution_actions fmt sel km prev"
    | (erosion) "step_actions fmt sel ants step km prev = erosion_actions km prev"
    by blast
  then show ?thesis
  proof cases
    case none
    then show ?thesis by simp
  next
    case variance
    then show ?thesis using variance_shape [of km] by simp
  next
    case csf
    then show ?thesis using csf_shape [of km ants] by simp
  next
    case resolution
    show ?thesis
    proof (cases "sel ''extraction_resolution'' = None")
      case True
      from resolution_raises [where sel = sel and fmt = fmt and km = km and prev = prev, OF this]
        resolution show ?thesis by simp
    next
      case False
      from resolution_shape [where sel = sel and fmt = fmt and km = km and prev = prev, OF this]
        resolution show ?thesis by simp
    qed
  next
    case erosion
    then show ?thesis using erosion_shape [of km prev] by simp
  qed
qed

lemma last_insert_key:
  assumes "as \<noteq> []" and "last as = Insert k n out"
  shows "insert_keys as = insert_keys (butlast as) @ [k]"
proof -
  have "as = butlast as @ [Insert k n out]" using assms by (metis append_butlast_last_id)
  then have "insert_keys as = insert_keys (butlast as @ [Insert k n out])" by simp
  then show ?thesis by (simp add: insert_keys_append)
qed

lemma step_actions_tagged:
  "fst ` set (creations (step_actions fmt sel ants step km prev)) \<subseteq> {km}
   \<and> set (insert_keys (step_actions fmt sel ants step km prev)) \<subseteq> {km}"
proof -
  let ?as = "step_actions fmt sel ants step km prev"
  from step_actions_shape [of fmt sel ants step km prev]
  consider (none) "?as = []"
    | (raise) "insert_keys ?as = []" "fst ` set (creations ?as) \<subseteq> {km}"
    | (build) n out where "?as \<noteq> []" "last ?as = Insert km n out"
        "insert_keys (butlast ?as) = []" "fst ` set (creations ?as) \<subseteq> {km}"
    by blast
  then show ?thesis
  proof cases
    case none
    then show ?thesis by simp
  next
    case raise
    then show ?thesis by simp
  next
    case build
    from last_insert_key [OF build(1,2)] build(3) have "insert_keys ?as = [km]" by simp
    with build(4) show ?thesis by simp
  qed
qed

lemma steps_of_nth:
  "i < length (steps_of d) \<Longrightarrow> steps_of d ! i \<in> {''tissue'', ''resolution'', ''erosion''}"
proof -
  assume "i < length (steps_of d)"
  then have "steps_of d ! i \<in> set (steps_of d)" by (rule nth_mem)
  then show ?thesis by (auto simp: steps_of_def)
qed

lemma step_actions_matched:
  assumes "step \<in> {''tissue'', ''resolution'', ''erosion''}"
    and "step = ''tissue'' \<longrightarrow> startswith km ''FunctionalVariance'' \<or> km = ''CerebrospinalFluid''"
  shows "step_actions fmt sel ants step km prev \<noteq> []"
  using assms
  by (auto simp: step_actions_def tissue_actions_def variance_actions_def csf_actions_def
      resolution_actions_def erosion_actions_def Let_def)

lemma map_le_absent: "m \<subseteq>\<^sub>m m' \<Longrightarrow> m' k = None \<Longrightarrow> m k = None"
  by (metis domIff map_le_def)

lemma map_le_present: "m \<subseteq>\<^sub>m m' \<Longrightarrow> m k \<noteq> None \<Longrightarrow> m' k = m k"
  by (metis domIff map_le_def)

lemma perform_dom_mono:
  "perform sel a st = (r, st') \<Longrightarrow> dom (pool st) \<subseteq> dom (pool st')"
  using perform_pool [of sel a st r st'] by auto

lemma perform_all_dom_mono:
  "perform_all sel as st = (r, st') \<Longrightarrow> dom (pool st) \<subseteq> dom (pool st')"
proof (induction as arbitrary: st)
  case Nil
  then show ?case by simp
next
  case (Cons a as)
  obtain r1 st1 where p: "perform sel a st = (r1, st1)" by (cases "perform sel a st")
  show ?case
  proof (cases r1)
    case None
    with Cons.prems p have "perform_all sel as st1 = (r, st')" by simp
    from Cons.IH [OF this] perform_dom_mono [OF p] show ?thesis by blast
  next
    case (Some e)
    with Cons.prems p have "st' = st1" by simp
    with perform_dom_mono [OF p] show ?thesis by simp
  qed
qed

lemma perform_all_inserted:
  "perform_all sel as st = (None, st') \<Longrightarrow> k \<in> set (insert_keys as) \<Longrightarrow> k \<in> dom (pool st')"
proof (induction as arbitrary: st)
  case Nil
  then show ?case by simp
next
  case (Cons a as)
  obtain r1 st1 where p: "perform sel a st = (r1, st1)" by (cases "perform sel a st")
  with Cons.prems(1) have r1: "r1 = None" and rest: "perform_all sel as st1 = (None, st')"
    by (cases r1; simp)+
  show ?case
  proof (cases "k \<in> set (insert_keys as)")
    case True
    from Cons.IH [OF rest True] show ?thesis .
  next
    case False
    with Cons.prems(2) obtain n out where a: "a = Insert k n out"
      by (cases a) auto
    with p have "k \<in> dom (pool st1)" by auto
    with perform_all_dom_mono [OF rest] show ?thesis by blast
  qed
qed

subsection \<open>One step\<close>

lemma process_step_cached:
  "pool st (key_upto d (Suc i)) \<noteq> None \<Longrightarrow> process_step fmt d sel ants i st = (None, st)"
  by (simp add: process_step_def)

lemma process_step_run:
  "pool st (key_upto d (Suc i)) = None \<Longrightarrow>
   process_step fmt d sel ants i st
     = perform_all sel (step_actions fmt sel ants (steps_of d ! i) (key_upto d (Suc i)) (key_upto d i)) st"
  by (simp add: process_step_def)

lemma process_step_pool:
  assumes "process_step fmt d sel ants i st = (r, st')"
  shows "pool st \<subseteq>\<^sub>m pool st' \<and> dom (pool st') \<subseteq> insert (key_upto d (Suc i)) (dom (pool st))"
proof (cases "pool st (key_upto d (Suc i)) = None")
  case False
  with assms have "st' = st" by (simp add: process_step_cached)
  then show ?thesis by auto
next
  case absent: True
  from assms have run: "perform_all sel
      (step_actions fmt sel ants (steps_of d ! i) (key_upto d (Suc i)) (key_upto d i)) st = (r, st')"
    by (simp add: process_step_run [OF absent])
  have keep: "pool st' k = pool st k" if "k \<noteq> key_upto d (Suc i)" for k
  proof -
    have "k \<notin> set (insert_keys
        (step_actions fmt sel ants (steps_of d ! i) (key_upto d (Suc i)) (key_upto d i)))"
      using step_actions_tagged [of fmt sel ants "steps_of d ! i" "key_upto d (Suc i)" "key_upto d i"]
        that by blast
    from perform_all_keeps [OF run this] show ?thesis .
  qed
  have "pool st \<subseteq>\<^sub>m pool st'"
    unfolding map_le_def
  proof
    fix k assume "k \<in> dom (pool st)"
    with absent have "k \<noteq> key_upto d (Suc i)" by auto
    from keep [OF this] show "pool st k = pool st' k" by simp
  qed
  moreover have "dom (pool st') \<subseteq> insert (key_upto d (Suc i)) (dom (pool st))"
  proof
    fix k assume k: "k \<in> dom (pool st')"
    show "k \<in> insert (key_upto d (Suc i)) (dom (pool st))"
    proof (cases "k = key_upto d (Suc i)")
      case False
      from keep [OF this] k show ?thesis by (simp add: domIff)
    qed simp
  qed
  ultimately show ?thesis by simp
qed

lemma process_step_created:
  assumes "process_step fmt d sel ants i st = (r, st')"
  shows "\<exists>cs. created st' = created st @ cs
     \<and> (\<forall>e\<in>set cs. fst e = key_upto d (Suc i) \<and> pool st (fst e) = None)"
proof (cases "pool st (key_upto d (Suc i)) = None")
  case False
  with assms have "st' = st" by (simp add: process_step_cached)
  then show ?thesis by simp
next
  case absent: True
  from assms have run: "perform_all sel
      (step_actions fmt sel ants (steps_of d ! i) (key_upto d (Suc i)) (key_upto d i)) st = (r, st')"
    by (simp add: process_step_run [OF absent])
  from perform_all_created [OF run] obtain cs where cs: "created st' = created st @ cs"
    "set cs \<subseteq> set (creations (step_actions fmt sel ants (steps_of d ! i) (key_upto d (Suc i)) (key_upto d i)))"
    by blast
  have "\<forall>e\<in>set cs. fst e = key_upto d (Suc i)"
    using cs(2) step_actions_tagged [of fmt sel ants "steps_of d ! i" "key_upto d (Suc i)" "key_upto d i"]
    by blast
  with cs(1) absent show ?thesis by auto
qed

lemma process_step_builds:
  assumes run: "process_step fmt d sel ants i st = (r, st')"
    and absent: "pool st k = None" and present: "pool st' k \<noteq> None"
  shows "r = None \<and> k = key_upto d (Suc i)
    \<and> (\<exists>n out cs. pool st' k = Some (Resource n out) \<and> created st' = created st @ cs
          \<and> (\<forall>e\<in>set cs. fst e = k) \<and> count_list cs (k, n) = 1)"
proof -
  define as where "as = step_actions fmt sel ants (steps_of d ! i) (key_upto d (Suc i)) (key_upto d i)"
  have k: "k = key_upto d (Suc i)"
  proof (rule ccontr)
    assume "k \<noteq> key_upto d (Suc i)"
    with process_step_pool [OF run] present have "k \<in> dom (pool st)" by (auto simp: domIff)
    with absent show False by (simp add: domIff)
  qed
  from run absent k have all: "perform_all sel as st = (r, st')"
    by (simp add: process_step_run as_def)
  have ins: "insert_keys as \<noteq> []"
  proof
    assume "insert_keys as = []"
    then have "k \<notin> set (insert_keys as)" by simp
    from perform_all_keeps [OF all this] absent present show False by simp
  qed
  have shape: "as = [] \<or> (raises as \<and> insert_keys as = [] \<and> fst ` set (creations as) \<subseteq> {k})
     \<or> (\<exists>n out. as \<noteq> [] \<and> last as = Insert k n out \<and> insert_keys (butlast as) = []
           \<and> fst ` set (creations as) \<subseteq> {k} \<and> count_list (creations as) (k, n) = 1)"
    unfolding as_def k by (rule step_actions_shape)
  with ins obtain n out where sh: "as \<noteq> []" "last as = Insert k n out"
    "insert_keys (butlast as) = []" "fst ` set (creations as) \<subseteq> {k}"
    "count_list (creations as) (k, n) = 1"
    by auto
  from perform_all_last_insert [OF all sh(1) sh(2) sh(3) absent present]
  have res: "r = None" "pool st' k = Some (Resource n out)" "created st' = created st @ creations as"
    by simp_all
  have tag: "\<forall>e\<in>set (creations as). fst e = k" using sh(4) by auto
  from res(2,3) tag sh(5)
  have "\<exists>n out cs. pool st' k = Some (Resource n out) \<and> created st' = created st @ cs
          \<and> (\<forall>e\<in>set cs. fst e = k) \<and> count_list cs (k, n) = 1"
    by blast
  with res(1) k show ?thesis by simp
qed

lemma process_step_unbuilt:
  assumes run: "process_step fmt d sel ants i st = (None, st')"
    and absent: "pool st' (key_upto d (Suc i)) = None"
  shows "st' = st"
proof -
  define k where "k = key_upto d (Suc i)"
  define as where "as = step_actions fmt sel ants (steps_of d ! i) k (key_upto d i)"
  have le: "pool st \<subseteq>\<^sub>m pool st'" using process_step_pool [OF run] by simp
  have a0: "pool st k = None" using map_le_absent [OF le] absent by (simp add: k_def)
  with run have all: "perform_all sel as st = (None, st')"
    by (simp add: process_step_run as_def k_def)
  from perform_all_created [OF all] have nr: "\<not> raises as" by blast
  have notin: "k \<notin> set (insert_keys as)"
    using perform_all_inserted [OF all, of k] absent by (auto simp: k_def domIff)
  have shape: "as = [] \<or> (raises as \<and> insert_keys as = [] \<and> fst ` set (creations as) \<subseteq> {k})
     \<or> (\<exists>n out. as \<noteq> [] \<and> last as = Insert k n out \<and> insert_keys (butlast as) = []
           \<and> fst ` set (creations as) \<subseteq> {k} \<and> count_list (creations as) (k, n) = 1)"
    unfolding as_def by (rule step_actions_shape)
  have "as = []"
  proof (rule ccontr)
    assume "as \<noteq> []"
    with shape nr obtain n out where l: "as \<noteq> []" "last as = Insert k n out" by blast
    from last_insert_key [OF l] have "k \<in> set (insert_keys as)" by simp
    with notin show False by simp
  qed
  with all show ?thesis by simp
qed

lemma process_step_caches:
  assumes run: "process_step fmt d sel ants i st = (None, st')"
    and i: "i < length (steps_of d)"
    and matched: "steps_of d ! i = ''tissue'' \<longrightarrow>
        startswith (key_upto d (Suc i)) ''FunctionalVariance'' \<or> key_upto d (Suc i) = ''CerebrospinalFluid''
        \<or> pool st (key_upto d (Suc i)) \<noteq> None"
  shows "pool st' (key_upto d (Suc i)) \<noteq> None"
proof (cases "pool st (key_upto d (Suc i)) = None")
  case False
  with run show ?thesis by (simp add: process_step_cached)
next
  case True
  define as where "as = step_actions fmt sel ants (steps_of d ! i) (key_upto d (Suc i)) (key_upto d i)"
  from run True have all: "perform_all sel as st = (None, st')"
    by (simp add: process_step_run as_def)
  from matched True have m: "steps_of d ! i = ''tissue'' \<longrightarrow>
        startswith (key_upto d (Suc i)) ''FunctionalVariance'' \<or> key_upto d (Suc i) = ''CerebrospinalFluid''"
    by simp
  have ne: "as \<noteq> []" unfolding as_def by (rule step_actions_matched [OF steps_of_nth [OF i] m])
  show ?thesis
  proof
    assume "pool st' (key_upto d (Suc i)) = None"
    from process_step_unbuilt [OF run this] have "st' = st" .
    have "as = []"
    proof -
      have le: "pool st \<subseteq>\<^sub>m pool st'" using process_step_pool [OF run] by simp
      from perform_all_created [OF all] have nr: "\<not> raises as" by blast
      have notin: "key_upto d (Suc i) \<notin> set (insert_keys as)"
        using perform_all_inserted [OF all, of "key_upto d (Suc i)"]
          \<open>pool st' (key_upto d (Suc i)) = None\<close> by (auto simp: domIff)
      have shape: "as = [] \<or> (raises as \<and> insert_keys as = []
            \<and> fst ` set (creations as) \<subseteq> {key_upto d (Suc i)})
         \<or> (\<exists>n out. as \<noteq> [] \<and> last as = Insert (key_upto d (Suc i)) n out
               \<and> insert_keys (butlast as) = []
               \<and> fst ` set (creations as) \<subseteq> {key_upto d (Suc i)}
               \<and> count_list (creations as) (key_upto d (Suc i), n) = 1)"
        unfolding as_def by (rule step_actions_shape)
      show ?thesis
      proof (rule ccontr)
        assume "as \<noteq> []"
        with shape nr obtain n out where l: "as \<noteq> []" "last as = Insert (key_upto d (Suc i)) n out"
          by blast
        from last_insert_key [OF l] have "key_upto d (Suc i) \<in> set (insert_keys as)" by simp
        with notin show False by simp
      qed
    qed
    with ne show False by simp
  qed
qed

subsection \<open>The loop\<close>

lemma process_steps_pool:
  "process_steps fmt d sel ants is st = (r, st') \<Longrightarrow>
   pool st \<subseteq>\<^sub>m pool st' \<and> dom (pool st') \<subseteq> dom (pool st) \<union> (\<lambda>i. key_upto d (Suc i)) ` set is"
proof (induction "is" arbitrary: st)
  case Nil
  then show ?case by simp
next
  case (Cons i "is")
  obtain r1 st1 where p: "process_step fmt d sel ants i st = (r1, st1)"
    by (cases "process_step fmt d sel ants i st")
  note one = process_step_pool [OF p]
  show ?case
  proof (cases r1)
    case None
    with Cons.prems p have "process_steps fmt d sel ants is st1 = (r, st')" by simp
    from Cons.IH [OF this] one show ?thesis
      by (auto intro: map_le_trans)
  next
    case (Some e)
    with Cons.prems p have "st' = st1" by simp
    with one show ?thesis by auto
  qed
qed

lemma process_steps_created:
  "process_steps fmt d sel ants is st = (r, st') \<Longrightarrow>
   \<exists>cs. created st' = created st @ cs
     \<and> (\<forall>e\<in>set cs. pool st (fst e) = None \<and> fst e \<in> (\<lambda>i. key_upto d (Suc i)) ` set is)"
proof (induction "is" arbitrary: st)
  case Nil
  then show ?case by simp
next
  case (Cons i "is")
  obtain r1 st1 where p: "process_step fmt d sel ants i st = (r1, st1)"
    by (cases "process_step fmt d sel ants i st")
  from process_step_created [OF p] obtain cs1 where cs1: "created st1 = created st @ cs1"
    "\<forall>e\<in>set cs1. fst e = key_upto d (Suc i) \<and> pool st (fst e) = None" by blast
  show ?case
  proof (cases r1)
    case None
    with Cons.prems p have rest: "process_steps fmt d sel ants is st1 = (r, st')" by simp
    from Cons.IH [OF rest] obtain cs2 where cs2: "created st' = created st1 @ cs2"
      "\<forall>e\<in>set cs2. pool st1 (fst e) = None \<and> fst e \<in> (\<lambda>i. key_upto d (Suc i)) ` set is"
      by blast
    have le: "pool st \<subseteq>\<^sub>m pool st1" using process_step_pool [OF p] by simp
    have a2: "\<forall>e\<in>set cs2. pool st (fst e) = None"
    proof
      fix e assume "e \<in> set cs2"
      with cs2(2) have "pool st1 (fst e) = None" by simp
      from map_le_absent [OF le this] show "pool st (fst e) = None" .
    qed
    have "created st' = created st @ (cs1 @ cs2)" using cs1(1) cs2(1) by simp
    moreover have "\<forall>e\<in>set (cs1 @ cs2). pool st (fst e) = None
            \<and> fst e \<in> (\<lambda>i. key_upto d (Suc i)) ` set (i # is)"
      using cs1(2) cs2(2) a2 by auto
    ultimately show ?thesis by blast
  next
    case (Some e)
    with Cons.prems p have "st' = st1" by simp
    have "\<forall>e\<in>set cs1. pool st (fst e) = None \<and> fst e \<in> (\<lambda>i. key_upto d (Suc i)) ` set (i # is)"
      using cs1(2) by auto
    with cs1(1) \<open>st' = st1\<close> show ?thesis by blast
  qed
qed

lemma created_for_append:
  "created st' = created st @ cs \<Longrightarrow> created_for k st' = created_for k st @ filter (\<lambda>e. fst e = k) cs"
  by (simp add: created_for_def)

lemma process_steps_untouched:
  assumes run: "process_steps fmt d sel ants is st = (r, st')" and present: "pool st k \<noteq> None"
  shows "pool st' k = pool st k \<and> created_for k st' = created_for k st"
proof -
  from process_steps_created [OF run] obtain cs where cs: "created st' = created st @ cs"
    "\<forall>e\<in>set cs. pool st (fst e) = None" by blast
  have "filter (\<lambda>e. fst e = k) cs = []" using cs(2) present by (auto simp: filter_empty_conv)
  with created_for_append [OF cs(1), of k] have "created_for k st' = created_for k st" by simp
  moreover have "pool st' k = pool st k"
  proof -
    have le: "pool st \<subseteq>\<^sub>m pool st'" using process_steps_pool [OF run] by simp
    from map_le_present [OF le present] show ?thesis .
  qed
  ultimately show ?thesis by simp
qed

lemma process_steps_builds:
  "process_steps fmt d sel ants is st = (r, st') \<Longrightarrow> pool st k = None \<Longrightarrow> pool st' k \<noteq> None \<Longrightarrow>
   \<exists>n out cs. pool st' k = Some (Resource n out) \<and> created_for k st' = created_for k st @ cs
      \<and> count_list cs (k, n) = 1"
proof (induction "is" arbitrary: st)
  case Nil
  then show ?case by simp
next
  case (Cons i "is")
  obtain r1 st1 where p: "process_step fmt d sel ants i st = (r1, st1)"
    by (cases "process_step fmt d sel ants i st")
  show ?case
  proof (cases "pool st1 k = None")
    case False
    from process_step_builds [OF p Cons.prems(2) False] obtain n out cs where
      b: "r1 = None" "pool st1 k = Some (Resource n out)" "created st1 = created st @ cs"
        "\<forall>e\<in>set cs. fst e = k" "count_list cs (k, n) = 1"
      by blast
    from b(1) Cons.prems(1) p have rest: "process_steps fmt d sel ants is st1 = (r, st')" by simp
    from process_steps_untouched [OF rest False] b(2)
    have after: "pool st' k = Some (Resource n out)" "created_for k st' = created_for k st1"
      by simp_all
    have "filter (\<lambda>e. fst e = k) cs = cs" using b(4) by (simp add: filter_id_conv)
    with created_for_append [OF b(3), of k] have "created_for k st1 = created_for k st @ cs"
      by simp
    with after b(5) have "pool st' k = Some (Resource n out)
        \<and> created_for k st' = created_for k st @ cs \<and> count_list cs (k, n) = 1"
      by simp
    then show ?thesis by blast
  next
    case True
    have r1: "r1 = None"
    proof (cases r1)
      case (Some e)
      with Cons.prems(1) p have "st' = st1" by simp
      with True Cons.prems(3) show ?thesis by simp
    qed simp
    with Cons.prems(1) p have rest: "process_steps fmt d sel ants is st1 = (r, st')" by simp
    have same: "created_for k st1 = created_for k st"
    proof (cases "k = key_upto d (Suc i)")
      case eq: True
      from p r1 have "process_step fmt d sel ants i st = (None, st1)" by simp
      from process_step_unbuilt [OF this] True eq have "st1 = st" by simp
      then show ?thesis by simp
    next
      case False
      from process_step_created [OF p] obtain cs where cs: "created st1 = created st @ cs"
        "\<forall>e\<in>set cs. fst e = key_upto d (Suc i)" by blast
      have "filter (\<lambda>e. fst e = k) cs = []" using cs(2) False by (auto simp: filter_empty_conv)
      with created_for_append [OF cs(1), of k] show ?thesis by simp
    qed
    from Cons.IH [OF rest True Cons.prems(3)] same show ?thesis by simp
  qed
qed

lemma steps_of_tissue:
  assumes "i < length (steps_of d)" and "steps_of d ! i = ''tissue''"
  shows "i = 0 \<and> d ''tissue'' = Some (key_upto d (Suc i))"
proof -
  have other: "steps_of d ! i \<in> {''resolution'', ''erosion''}"
    if "steps_of d ! i \<in> set (filter (\<lambda>key. d key \<noteq> None) [''resolution'', ''erosion''])"
    using that by (auto split: if_splits)
  have i0: "i = 0"
  proof (rule ccontr)
    assume "i \<noteq> 0"
    then obtain j where j: "i = Suc j" by (cases i) auto
    have "steps_of d ! i \<in> set (filter (\<lambda>key. d key \<noteq> None) [''resolution'', ''erosion''])"
    proof (cases "d ''tissue''")
      case None
      then have "steps_of d = filter (\<lambda>key. d key \<noteq> None) [''resolution'', ''erosion'']"
        by (simp add: steps_of_def)
      with assms(1) show ?thesis by (metis nth_mem)
    next
      case (Some t)
      then have s: "steps_of d = ''tissue'' # filter (\<lambda>key. d key \<noteq> None) [''resolution'', ''erosion'']"
        by (simp add: steps_of_def)
      with assms(1) j have "j < length (filter (\<lambda>key. d key \<noteq> None) [''resolution'', ''erosion''])"
        by simp
      then have "filter (\<lambda>key. d key \<noteq> None) [''resolution'', ''erosion''] ! j
          \<in> set (filter (\<lambda>key. d key \<noteq> None) [''resolution'', ''erosion''])"
        by (rule nth_mem)
      with s j show ?thesis by simp
    qed
    from other [OF this] assms(2) show False by simp
  qed
  have t: "d ''tissue'' \<noteq> None"
  proof
    assume n: "d ''tissue'' = None"
    then have "steps_of d = filter (\<lambda>key. d key \<noteq> None) [''resolution'', ''erosion'']"
      by (simp add: steps_of_def)
    with assms(1) have "steps_of d ! i \<in> set (filter (\<lambda>key. d key \<noteq> None) [''resolution'', ''erosion''])"
      by (metis nth_mem)
    from other [OF this] assms(2) show False by simp
  qed
  then obtain t where t: "d ''tissue'' = Some t" by auto
  then have "key_upto d (Suc 0) = t" by (simp add: steps_of_def key_upto_def)
  with i0 t show ?thesis by simp
qed

lemma tissue_resolves_mono:
  assumes "tissue_resolves d st" and "pool st \<subseteq>\<^sub>m pool st'"
  shows "tissue_resolves d st'"
proof (cases "d ''tissue''")
  case None
  then show ?thesis by (simp add: tissue_resolves_def)
next
  case (Some t)
  show ?thesis
  proof (cases "pool st t = None")
    case True
    with assms(1) Some show ?thesis by (auto simp: tissue_resolves_def)
  next
    case False
    from map_le_present [OF assms(2) False] False have "pool st' t \<noteq> None" by simp
    with Some show ?thesis by (simp add: tissue_resolves_def)
  qed
qed

lemma process_steps_caches:
  "process_steps fmt d sel ants is st = (None, st') \<Longrightarrow>
   (\<forall>i\<in>set is. i < length (steps_of d)) \<Longrightarrow> tissue_resolves d st \<Longrightarrow>
   (\<forall>i\<in>set is. pool st' (key_upto d (Suc i)) \<noteq> None)"
proof (induction "is" arbitrary: st)
  case Nil
  then show ?case by simp
next
  case (Cons i "is")
  obtain r1 st1 where p0: "process_step fmt d sel ants i st = (r1, st1)"
    by (cases "process_step fmt d sel ants i st")
  with Cons.prems(1) have r1: "r1 = None"
    and rest: "process_steps fmt d sel ants is st1 = (None, st')"
    by (cases r1; simp)+
  from p0 r1 have p: "process_step fmt d sel ants i st = (None, st1)" by simp
  have i: "i < length (steps_of d)" using Cons.prems(2) by simp
  have m: "steps_of d ! i = ''tissue'' \<longrightarrow>
        startswith (key_upto d (Suc i)) ''FunctionalVariance'' \<or> key_upto d (Suc i) = ''CerebrospinalFluid''
        \<or> pool st (key_upto d (Suc i)) \<noteq> None"
  proof
    assume "steps_of d ! i = ''tissue''"
    from steps_of_tissue [OF i this] have "d ''tissue'' = Some (key_upto d (Suc i))" by simp
    with Cons.prems(3) show "startswith (key_upto d (Suc i)) ''FunctionalVariance''
        \<or> key_upto d (Suc i) = ''CerebrospinalFluid'' \<or> pool st (key_upto d (Suc i)) \<noteq> None"
      by (simp add: tissue_resolves_def)
  qed
  from process_step_caches [OF p i m]
  have here: "pool st1 (key_upto d (Suc i)) \<noteq> None" .
  have le: "pool st \<subseteq>\<^sub>m pool st1" using process_step_pool [OF p] by simp
  have tr: "tissue_resolves d st1" using tissue_resolves_mono [OF Cons.prems(3) le] .
  have lt: "\<forall>i\<in>set is. i < length (steps_of d)" using Cons.prems(2) by simp
  from Cons.IH [OF rest lt tr]
  have tl: "\<forall>i\<in>set is. pool st' (key_upto d (Suc i)) \<noteq> None" .
  have "pool st' (key_upto d (Suc i)) \<noteq> None"
    using process_steps_untouched [OF rest here] here by simp
  with tl show ?case by simp
qed

lemma process_steps_append:
  "process_steps fmt d sel ants (is @ js) st =
     (case process_steps fmt d sel ants is st of
        (Some e, st') \<Rightarrow> (Some e, st')
      | (None, st') \<Rightarrow> process_steps fmt d sel ants js st')"
  by (induction "is" arbitrary: st) (auto split: prod.splits option.splits)

lemma process_steps_cached:
  "(\<And>i. i \<in> set is \<Longrightarrow> pool st (key_upto d (Suc i)) \<noteq> None) \<Longrightarrow>
   process_steps fmt d sel ants is st = (None, st)"
  by (induction "is") (auto simp: process_step_def)

lemma process_steps_skip:
  assumes "\<And>i. i < n \<Longrightarrow> pool st (key_upto d (Suc i)) \<noteq> None" and "n \<le> m"
  shows "process_steps fmt d sel ants [0..<m] st = process_steps fmt d sel ants [n..<m] st"
proof -
  have "[0..<m] = [0..<n] @ [n..<m]" using assms(2) by (metis le_add_diff_inverse upt_add_eq_append zero_le)
  moreover have "process_steps fmt d sel ants [0..<n] st = (None, st)"
    using assms(1) by (intro process_steps_cached) simp
  ultimately show ?thesis by (simp add: process_steps_append)
qed

subsection \<open>The call\<close>

lemma generate_run:
  assumes "generate_summarize_tissue_mask fmt st d sel ants = (r, st')"
  shows "\<exists>r0. process_steps fmt d sel ants [0..<length (steps_of d)] st = (r0, st')
     \<and> (r0 = None \<longleftrightarrow> r = Inr (full_mask_key d))
     \<and> (r = Inr (full_mask_key d) \<or> (\<exists>e. r = Inl e))"
  using assms
  by (auto simp: generate_summarize_tissue_mask_def split: prod.splits option.splits)

lemma generate_of_steps:
  "generate_summarize_tissue_mask fmt st d sel ants =
     (case process_steps fmt d sel ants [0..<length (steps_of d)] st of
        (Some e, st') \<Rightarrow> (Inl e, st')
      | (None, st') \<Rightarrow> (Inr (full_mask_key d), st'))"
  by (simp add: generate_summarize_tissue_mask_def)

lemma generate_pool:
  assumes "generate_summarize_tissue_mask fmt st d sel ants = (r, st')"
  shows "pool st \<subseteq>\<^sub>m pool st'"
    and "dom (pool st') \<subseteq> dom (pool st) \<union> (\<lambda>i. key_upto d (Suc i)) ` {..<length (steps_of d)}"
proof -
  from generate_run [OF assms] obtain r0 where
    "process_steps fmt d sel ants [0..<length (steps_of d)] st = (r0, st')" by blast
  from process_steps_pool [OF this]
  show "pool st \<subseteq>\<^sub>m pool st'"
    and "dom (pool st') \<subseteq> dom (pool st) \<union> (\<lambda>i. key_upto d (Suc i)) ` {..<length (steps_of d)}"
    by (simp_all add: lessThan_atLeast0)
qed

lemma generate_created:
  assumes "generate_summarize_tissue_mask fmt st d sel ants = (r, st')"
  shows "\<exists>cs. created st' = created st @ cs
     \<and> (\<forall>e\<in>set cs. pool st (fst e) = None
           \<and> fst e \<in> (\<lambda>i. key_upto d (Suc i)) ` {..<length (steps_of d)})"
proof -
  from generate_run [OF assms] obtain r0 where
    "process_steps fmt d sel ants [0..<length (steps_of d)] st = (r0, st')" by blast
  from process_steps_created [OF this] show ?thesis by (simp add: lessThan_atLeast0)
qed

lemma generate_untouched:
  assumes "generate_summarize_tissue_mask fmt st d sel ants = (r, st')" and "pool st k \<noteq> None"
  shows "pool st' k = pool st k \<and> created_for k st' = created_for k st"
proof -
  from generate_run [OF assms(1)] obtain r0 where
    "process_steps fmt d sel ants [0..<length (steps_of d)] st = (r0, st')" by blast
  from process_steps_untouched [OF this assms(2)] show ?thesis .
qed

lemma generate_builds:
  assumes "generate_summarize_tissue_mask fmt st d sel ants = (r, st')"
    and "pool st k = None" and "pool st' k \<noteq> None"
  shows "\<exists>n out cs. pool st' k = Some (Resource n out) \<and> created_for k st' = created_for k st @ cs
      \<and> count_list cs (k, n) = 1"
proof -
  from generate_run [OF assms(1)] obtain r0 where
    "process_steps fmt d sel ants [0..<length (steps_of d)] st = (r0, st')" by blast
  from process_steps_builds [OF this assms(2,3)] show ?thesis .
qed

lemma generate_caches:
  assumes run: "generate_summarize_tissue_mask fmt st d sel ants = (Inr (full_mask_key d), st')"
    and tr: "tissue_resolves d st" and i: "i < length (steps_of d)"
  shows "pool st' (key_upto d (Suc i)) \<noteq> None"
proof -
  from generate_run [OF run] have
    p: "process_steps fmt d sel ants [0..<length (steps_of d)] st = (None, st')" by auto
  have "\<forall>i\<in>set [0..<length (steps_of d)]. i < length (steps_of d)" by simp
  from process_steps_caches [OF p this tr] i show ?thesis by simp
qed

lemma generate_before_next:
  assumes run: "generate_summarize_tissue_mask fmt st d sel ants = (r, st')"
    and i: "i < length (steps_of d)" and tr: "tissue_resolves d st"
    and upto: "process_steps fmt d sel ants [0..<Suc i] st = (None, s)"
  shows "pool s (key_upto d (Suc i)) \<noteq> None
    \<and> (r, st') = (case process_steps fmt d sel ants [Suc i..<length (steps_of d)] s of
          (Some e, s') \<Rightarrow> (Inl e, s')
        | (None, s') \<Rightarrow> (Inr (full_mask_key d), s'))"
proof -
  have "\<forall>j\<in>set [0..<Suc i]. j < length (steps_of d)" using i by simp
  from process_steps_caches [OF upto this tr] have here: "pool s (key_upto d (Suc i)) \<noteq> None"
    by simp
  have split: "[0..<length (steps_of d)] = [0..<Suc i] @ [Suc i..<length (steps_of d)]"
    using i by (metis Suc_leI le_add_diff_inverse upt_add_eq_append zero_le)
  have "process_steps fmt d sel ants [0..<length (steps_of d)] st
      = process_steps fmt d sel ants ([0..<Suc i] @ [Suc i..<length (steps_of d)]) st"
    by (rule arg_cong [where f = "\<lambda>is. process_steps fmt d sel ants is st"]) (rule split)
  also have "\<dots> = (case process_steps fmt d sel ants [0..<Suc i] st of
        (Some e, st') \<Rightarrow> (Some e, st')
      | (None, st') \<Rightarrow> process_steps fmt d sel ants [Suc i..<length (steps_of d)] st')"
    by (rule process_steps_append)
  also have "\<dots> = process_steps fmt d sel ants [Suc i..<length (steps_of d)] s"
    by (simp only: upto prod.case option.case)
  finally have "process_steps fmt d sel ants [0..<length (steps_of d)] st
      = process_steps fmt d sel ants [Suc i..<length (steps_of d)] s" .
  with run have "(r, st') = (case process_steps fmt d sel ants [Suc i..<length (steps_of d)] s of
          (Some e, s') \<Rightarrow> (Inl e, s')
        | (None, s') \<Rightarrow> (Inr (full_mask_key d), s'))"
    by (simp add: generate_of_steps)
  with here show ?thesis by simp
qed

lemma generate_skip:
  assumes run: "generate_summarize_tissue_mask fmt st d sel ants = (r, st')"
    and cached: "\<And>i. i < n \<Longrightarrow> pool st (key_upto d (Suc i)) \<noteq> None"
    and n: "n \<le> length (steps_of d)"
  shows "(r, st') = (case process_steps fmt d sel ants [n..<length (steps_of d)] st of
          (Some e, s') \<Rightarrow> (Inl e, s')
        | (None, s') \<Rightarrow> (Inr (full_mask_key d), s'))"
proof -
  have "process_steps fmt d sel ants [0..<length (steps_of d)] st
      = process_steps fmt d sel ants [n..<length (steps_of d)] st"
    using cached n by (rule process_steps_skip)
  with run show ?thesis by (simp add: generate_of_steps)
qed

lemma generate_cached:
  assumes run: "generate_summarize_tissue_mask fmt st d sel ants = (r, st')"
    and cached: "\<And>i. i < length (steps_of d) \<Longrightarrow> pool st (key_upto d (Suc i)) \<noteq> None"
  shows "st' = st \<and> r = Inr (full_mask_key d)"
proof -
  have "process_steps fmt d sel ants [0..<length (steps_of d)] st = (None, st)"
    using cached by (intro process_steps_cached) simp
  with run show ?thesis by (simp add: generate_of_steps)
qed

subsection \<open>Two selections that share a prefix\<close>

lemma lookup_wm_2mm:
  "wm_2mm ''tissue'' = Some ''WhiteMatter''" "wm_2mm ''resolution'' = Some ''2mm''"
  "wm_2mm ''erosion'' = None"
  by (simp_all add: wm_2mm_def)

lemma steps_wm_2mm: "steps_of wm_2mm = [''tissue'', ''resolution'']"
  by (simp add: steps_of_def lookup_wm_2mm)

lemma keys_wm_2mm: "key_upto wm_2mm 0 = []" "key_upto wm_2mm (Suc 0) = ''WhiteMatter''"
  "key_upto wm_2mm (Suc (Suc 0)) = ''WhiteMatter_2mm''"
  by (simp_all add: key_upto_def steps_wm_2mm lookup_wm_2mm)

lemma node_key_wm: "node_key ''WhiteMatter_2mm'' = ''WhiteMatter_2mm''"
  by (simp add: node_key_def is_word_def)

lemma lookup_example_pool:
  "example_pool ''WhiteMatter'' = Some (Resource segmentation ''wm_mask'')"
  "example_pool ''Anatomical_2mm'' = Some (Resource resample_2mm ''out_file'')"
  "example_pool ''WhiteMatter_2mm'' = None"
  by (simp_all add: example_pool_def)

lemma first_step0:
  "process_step example_fmt wm_2mm selector_2mm True 0 example_state = (None, example_state)"
  by (simp add: process_step_def keys_wm_2mm example_state_def lookup_example_pool)

lemma first_step1:
  "process_step example_fmt wm_2mm selector_2mm True (Suc 0) example_state
     = (None, state_after_first)"
  by (simp add: process_step_def keys_wm_2mm steps_wm_2mm step_actions_def
      resolution_actions_def node_key_wm example_state_def lookup_example_pool
      selector_2mm_def example_fmt_def state_after_first_def mask_to_epi_wm_def Let_def)

lemma first_steps:
  "process_steps example_fmt wm_2mm selector_2mm True [0..<Suc (Suc 0)] example_state
     = (None, state_after_first)"
  by (simp add: upt_conv_Cons first_step0 first_step1)

lemma first_call:
  "generate_summarize_tissue_mask example_fmt example_state wm_2mm selector_2mm True
     = (Inr ''WhiteMatter_2mm'', state_after_first)"
  by (simp add: generate_summarize_tissue_mask_def steps_wm_2mm full_mask_key_def keys_wm_2mm
      upt_conv_Cons first_step0 first_step1)

lemma lookup_eroded:
  "wm_2mm_eroded ''tissue'' = Some ''WhiteMatter''" "wm_2mm_eroded ''resolution'' = Some ''2mm''"
  "wm_2mm_eroded ''erosion'' = Some ''E''"
  by (simp_all add: wm_2mm_eroded_def)

lemma steps_eroded: "steps_of wm_2mm_eroded = [''tissue'', ''resolution'', ''erosion'']"
  by (simp add: steps_of_def lookup_eroded)

lemma keys_eroded: "key_upto wm_2mm_eroded (Suc 0) = ''WhiteMatter''"
  "key_upto wm_2mm_eroded (Suc (Suc 0)) = ''WhiteMatter_2mm''"
  "key_upto wm_2mm_eroded (Suc (Suc (Suc 0))) = ''WhiteMatter_2mm_E''"
  by (simp_all add: key_upto_def steps_eroded lookup_eroded)

lemma node_key_eroded: "node_key ''WhiteMatter_2mm_E'' = ''WhiteMatter_2mm_E''"
  by (simp add: node_key_def is_word_def)

lemma pool_after_first:
  "pool state_after_first ''WhiteMatter'' = Some (Resource segmentation ''wm_mask'')"
  "pool state_after_first ''WhiteMatter_2mm'' = Some (Resource mask_to_epi_wm ''out_file'')"
  "pool state_after_first ''WhiteMatter_2mm_E'' = None"
  by (simp_all add: state_after_first_def example_pool_def)

lemma second_step2:
  "process_step example_fmt wm_2mm_eroded selector_2mm True (Suc (Suc 0)) state_after_first
     = (None, state_after_second)"
  by (simp add: process_step_def keys_eroded steps_eroded step_actions_def
      erosion_actions_def node_key_eroded pool_after_first state_after_second_def erode_wm_def
      Let_def)

lemma second_call:
  "generate_summarize_tissue_mask example_fmt state_after_first wm_2mm_eroded selector_2mm True
     = (Inr ''WhiteMatter_2mm_E'', state_after_second)"
proof -
  have s0: "process_step example_fmt wm_2mm_eroded selector_2mm True 0 state_after_first
      = (None, state_after_first)"
    by (simp add: process_step_def keys_eroded pool_after_first)
  have s1: "process_step example_fmt wm_2mm_eroded selector_2mm True (Suc 0) state_after_first
      = (None, state_after_first)"
    by (simp add: process_step_def keys_eroded pool_after_first)
  show ?thesis
    by (simp add: generate_summarize_tissue_mask_def steps_eroded full_mask_key_def keys_eroded
        upt_conv_Cons s0 s1 second_step2)
qed

text \<open>
  C2 (as the code has it). For two calls in a row, from any state and for any two
  descriptors and selectors:
  \<^item> no entry of the pool is removed or overwritten by either call, and the first call
    adds entries only under prefix keys of its descriptor;
  \<^item> the first call constructs nodes only for prefix keys of its descriptor that were not
    in the pool, and each call returns the full key or raises;
  \<^item> when the first call returns and its tissue key has a builder or is in the pool,
    every prefix key of its descriptor is in the pool afterwards;
  \<^item> a key that the first call put into the pool holds one artifact, the same after the
    second call, and over both calls the node of that artifact was constructed exactly
    once;
  \<^item> a key that is in the pool before the second call keeps its artifact and gets no
    further node;
  \<^item> so when the second descriptor shares its first \<open>n\<close> prefix keys with the first and
    the first call returned, each shared key resolves to the artifact that the first call
    left, with one construction of its node if the first call built it and none if it was
    there before, and the second call is exactly the run of its steps from \<open>n\<close> on;
  \<^item> when all keys of the second descriptor are in the pool the second call changes
    nothing and returns the full key;
  \<^item> in the first call, once the steps up to step \<open>i\<close> have ended without an error the
    key of step \<open>i\<close> is in the pool, and the rest of the call is the run of the later
    steps from that state.
\<close>

theorem cache_grows_and_is_reused:
  assumes first: "generate_summarize_tissue_mask fmt st0 d1 sel1 ants1 = (r1, st1)"
    and second: "generate_summarize_tissue_mask fmt st1 d2 sel2 ants2 = (r2, st2)"
  shows "pool st0 \<subseteq>\<^sub>m pool st1 \<and> pool st1 \<subseteq>\<^sub>m pool st2
    \<and> dom (pool st1) \<subseteq> dom (pool st0) \<union> (\<lambda>i. key_upto d1 (Suc i)) ` {..<length (steps_of d1)}
    \<and> (\<exists>cs. created st1 = created st0 @ cs
          \<and> (\<forall>e\<in>set cs. pool st0 (fst e) = None
                \<and> fst e \<in> (\<lambda>i. key_upto d1 (Suc i)) ` {..<length (steps_of d1)}))
    \<and> (r1 = Inr (full_mask_key d1) \<or> (\<exists>e. r1 = Inl e))
    \<and> (r2 = Inr (full_mask_key d2) \<or> (\<exists>e. r2 = Inl e))
    \<and> (r1 = Inr (full_mask_key d1) \<and> tissue_resolves d1 st0 \<longrightarrow>
         (\<forall>i<length (steps_of d1). pool st1 (key_upto d1 (Suc i)) \<noteq> None))
    \<and> (\<forall>k. pool st0 k = None \<and> pool st1 k \<noteq> None \<longrightarrow>
         (\<exists>m out cs. pool st1 k = Some (Resource m out) \<and> pool st2 k = Some (Resource m out)
            \<and> created_for k st1 = created_for k st0 @ cs \<and> created_for k st2 = created_for k st1
            \<and> count_list cs (k, m) = 1))
    \<and> (\<forall>k. pool st1 k \<noteq> None \<longrightarrow>
         pool st2 k = pool st1 k \<and> created_for k st2 = created_for k st1)
    \<and> (r1 = Inr (full_mask_key d1) \<and> tissue_resolves d1 st0
         \<and> n \<le> length (steps_of d1) \<and> n \<le> length (steps_of d2)
         \<and> (\<forall>i<n. key_upto d2 (Suc i) = key_upto d1 (Suc i)) \<longrightarrow>
         (\<forall>i<n. pool st1 (key_upto d2 (Suc i)) \<noteq> None
            \<and> pool st2 (key_upto d2 (Suc i)) = pool st1 (key_upto d2 (Suc i))
            \<and> (pool st0 (key_upto d2 (Suc i)) = None \<longrightarrow>
                 (\<exists>m out cs. pool st2 (key_upto d2 (Suc i)) = Some (Resource m out)
                    \<and> created_for (key_upto d2 (Suc i)) st2
                        = created_for (key_upto d2 (Suc i)) st0 @ cs
                    \<and> count_list cs (key_upto d2 (Suc i), m) = 1))
            \<and> (pool st0 (key_upto d2 (Suc i)) \<noteq> None \<longrightarrow>
                 created_for (key_upto d2 (Suc i)) st2 = created_for (key_upto d2 (Suc i)) st0))
         \<and> (r2, st2) =
             (case process_steps fmt d2 sel2 ants2 [n..<length (steps_of d2)] st1 of
                (Some e, s) \<Rightarrow> (Inl e, s)
              | (None, s) \<Rightarrow> (Inr (full_mask_key d2), s)))
    \<and> ((\<forall>i<length (steps_of d2). pool st1 (key_upto d2 (Suc i)) \<noteq> None) \<longrightarrow>
         st2 = st1 \<and> r2 = Inr (full_mask_key d2))
    \<and> (\<forall>i<length (steps_of d1). \<forall>s.
         tissue_resolves d1 st0
         \<and> process_steps fmt d1 sel1 ants1 [0..<Suc i] st0 = (None, s) \<longrightarrow>
         pool s (key_upto d1 (Suc i)) \<noteq> None
         \<and> (r1, st1) =
             (case process_steps fmt d1 sel1 ants1 [Suc i..<length (steps_of d1)] s of
                (Some e, s') \<Rightarrow> (Inl e, s')
              | (None, s') \<Rightarrow> (Inr (full_mask_key d1), s')))"
proof -
  have grow: "pool st0 \<subseteq>\<^sub>m pool st1 \<and> pool st1 \<subseteq>\<^sub>m pool st2"
    using generate_pool(1) [OF first] generate_pool(1) [OF second] by simp
  have bound: "dom (pool st1) \<subseteq> dom (pool st0) \<union> (\<lambda>i. key_upto d1 (Suc i)) ` {..<length (steps_of d1)}"
    using generate_pool(2) [OF first] .
  have fresh: "\<exists>cs. created st1 = created st0 @ cs
          \<and> (\<forall>e\<in>set cs. pool st0 (fst e) = None
                \<and> fst e \<in> (\<lambda>i. key_upto d1 (Suc i)) ` {..<length (steps_of d1)})"
    using generate_created [OF first] .
  have ret1: "r1 = Inr (full_mask_key d1) \<or> (\<exists>e. r1 = Inl e)"
    using generate_run [OF first] by blast
  have ret2: "r2 = Inr (full_mask_key d2) \<or> (\<exists>e. r2 = Inl e)"
    using generate_run [OF second] by blast
  have all_in: "pool st1 (key_upto d1 (Suc i)) \<noteq> None"
    if "r1 = Inr (full_mask_key d1)" "tissue_resolves d1 st0" "i < length (steps_of d1)" for i
    using generate_caches [OF first [unfolded that(1)] that(2,3)] .
  have kept: "pool st2 k = pool st1 k \<and> created_for k st2 = created_for k st1"
    if "pool st1 k \<noteq> None" for k
    using generate_untouched [OF second that] .
  have kept0: "pool st1 k = pool st0 k \<and> created_for k st1 = created_for k st0"
    if "pool st0 k \<noteq> None" for k
    using generate_untouched [OF first that] .
  have once: "\<exists>m out cs. pool st1 k = Some (Resource m out) \<and> pool st2 k = Some (Resource m out)
            \<and> created_for k st1 = created_for k st0 @ cs \<and> created_for k st2 = created_for k st1
            \<and> count_list cs (k, m) = 1"
    if "pool st0 k = None" "pool st1 k \<noteq> None" for k
  proof -
    from generate_builds [OF first that] obtain m out cs where
      b: "pool st1 k = Some (Resource m out)" "created_for k st1 = created_for k st0 @ cs"
        "count_list cs (k, m) = 1" by blast
    from kept [OF that(2)] b(1) have "pool st2 k = Some (Resource m out)"
      "created_for k st2 = created_for k st1" by simp_all
    with b show ?thesis by blast
  qed
  have shared: "(\<forall>i<n. pool st1 (key_upto d2 (Suc i)) \<noteq> None
            \<and> pool st2 (key_upto d2 (Suc i)) = pool st1 (key_upto d2 (Suc i))
            \<and> (pool st0 (key_upto d2 (Suc i)) = None \<longrightarrow>
                 (\<exists>m out cs. pool st2 (key_upto d2 (Suc i)) = Some (Resource m out)
                    \<and> created_for (key_upto d2 (Suc i)) st2
                        = created_for (key_upto d2 (Suc i)) st0 @ cs
                    \<and> count_list cs (key_upto d2 (Suc i), m) = 1))
            \<and> (pool st0 (key_upto d2 (Suc i)) \<noteq> None \<longrightarrow>
                 created_for (key_upto d2 (Suc i)) st2 = created_for (key_upto d2 (Suc i)) st0))
         \<and> (r2, st2) =
             (case process_steps fmt d2 sel2 ants2 [n..<length (steps_of d2)] st1 of
                (Some e, s) \<Rightarrow> (Inl e, s)
              | (None, s) \<Rightarrow> (Inr (full_mask_key d2), s))"
    if ok: "r1 = Inr (full_mask_key d1)" "tissue_resolves d1 st0"
      and n: "n \<le> length (steps_of d1)" "n \<le> length (steps_of d2)"
      and same: "\<forall>i<n. key_upto d2 (Suc i) = key_upto d1 (Suc i)"
  proof -
    have hit: "pool st1 (key_upto d2 (Suc i)) \<noteq> None" if "i < n" for i
    proof -
      from that n(1) have "i < length (steps_of d1)" by simp
      from all_in [OF ok this] same that show ?thesis by simp
    qed
    have each: "pool st1 (key_upto d2 (Suc i)) \<noteq> None
            \<and> pool st2 (key_upto d2 (Suc i)) = pool st1 (key_upto d2 (Suc i))
            \<and> (pool st0 (key_upto d2 (Suc i)) = None \<longrightarrow>
                 (\<exists>m out cs. pool st2 (key_upto d2 (Suc i)) = Some (Resource m out)
                    \<and> created_for (key_upto d2 (Suc i)) st2
                        = created_for (key_upto d2 (Suc i)) st0 @ cs
                    \<and> count_list cs (key_upto d2 (Suc i), m) = 1))
            \<and> (pool st0 (key_upto d2 (Suc i)) \<noteq> None \<longrightarrow>
                 created_for (key_upto d2 (Suc i)) st2 = created_for (key_upto d2 (Suc i)) st0)"
      if "i < n" for i
    proof -
      define k where "k = key_upto d2 (Suc i)"
      have h: "pool st1 k \<noteq> None" using hit [OF that] by (simp add: k_def)
      have a: "pool st2 k = pool st1 k" "created_for k st2 = created_for k st1"
        using kept [OF h] by simp_all
      have b: "\<exists>m out cs. pool st2 k = Some (Resource m out)
                    \<and> created_for k st2 = created_for k st0 @ cs
                    \<and> count_list cs (k, m) = 1" if "pool st0 k = None"
      proof -
        from once [OF that h] obtain m out cs where
          "pool st2 k = Some (Resource m out)" "created_for k st1 = created_for k st0 @ cs"
          "created_for k st2 = created_for k st1" "count_list cs (k, m) = 1" by blast
        then have "pool st2 k = Some (Resource m out)
            \<and> created_for k st2 = created_for k st0 @ cs \<and> count_list cs (k, m) = 1" by simp
        then show ?thesis by blast
      qed
      have c: "created_for k st2 = created_for k st0" if "pool st0 k \<noteq> None"
        using kept0 [OF that] a(2) by simp
      from h a(1) b c show ?thesis unfolding k_def by blast
    qed
    have "(r2, st2) = (case process_steps fmt d2 sel2 ants2 [n..<length (steps_of d2)] st1 of
                (Some e, s) \<Rightarrow> (Inl e, s)
              | (None, s) \<Rightarrow> (Inr (full_mask_key d2), s))"
      using second hit n(2) by (rule generate_skip)
    with each show ?thesis by blast
  qed
  have same: "st2 = st1 \<and> r2 = Inr (full_mask_key d2)"
    if "\<forall>i<length (steps_of d2). pool st1 (key_upto d2 (Suc i)) \<noteq> None"
    using second that by (intro generate_cached) simp_all
  have before_next: "pool s (key_upto d1 (Suc i)) \<noteq> None
         \<and> (r1, st1) =
             (case process_steps fmt d1 sel1 ants1 [Suc i..<length (steps_of d1)] s of
                (Some e, s') \<Rightarrow> (Inl e, s')
              | (None, s') \<Rightarrow> (Inr (full_mask_key d1), s'))"
    if "i < length (steps_of d1)" "tissue_resolves d1 st0"
      "process_steps fmt d1 sel1 ants1 [0..<Suc i] st0 = (None, s)" for i s
    using first that by (rule generate_before_next)
  show ?thesis
    apply (intro conjI)
    subgoal using grow by simp
    subgoal using grow by simp
    subgoal using bound .
    subgoal using fresh .
    subgoal using ret1 .
    subgoal using ret2 .
    subgoal using all_in by blast
    subgoal using once by blast
    subgoal using kept by blast
    subgoal using shared by blast
    subgoal using same by blast
    subgoal using before_next by blast
    done
qed

theorem cache_grows_and_is_reused_witness:
  "generate_summarize_tissue_mask example_fmt example_state wm_2mm selector_2mm True
     = (Inr ''WhiteMatter_2mm'', state_after_first)
   \<and> generate_summarize_tissue_mask example_fmt state_after_first wm_2mm_eroded selector_2mm True
     = (Inr ''WhiteMatter_2mm_E'', state_after_second)
   \<and> pool example_state \<subseteq>\<^sub>m pool state_after_first
   \<and> pool state_after_first \<subseteq>\<^sub>m pool state_after_second
   \<and> pool state_after_first ''WhiteMatter'' \<noteq> None
   \<and> pool state_after_second ''WhiteMatter_2mm'' = Some (Resource mask_to_epi_wm ''out_file'')
   \<and> count_list (created_for ''WhiteMatter_2mm'' state_after_second)
        (''WhiteMatter_2mm'', mask_to_epi_wm) = 1
   \<and> created_for ''WhiteMatter'' state_after_second = []
   \<and> (Inr ''WhiteMatter_2mm_E'', state_after_second) =
        (case process_steps example_fmt wm_2mm_eroded selector_2mm True [2..<3] state_after_first of
           (Some e, s) \<Rightarrow> (Inl e, s)
         | (None, s) \<Rightarrow> (Inr ''WhiteMatter_2mm_E'', s))
   \<and> (Inr ''WhiteMatter_2mm'', state_after_first) =
        (case process_steps example_fmt wm_2mm selector_2mm True [1..<2] example_state of
           (Some e, s) \<Rightarrow> (Inl e, s)
         | (None, s) \<Rightarrow> (Inr ''WhiteMatter_2mm'', s))
   \<and> generate_summarize_tissue_mask example_fmt state_after_first wm_2mm selector_2mm False
       = (Inr ''WhiteMatter_2mm'', state_after_first)"
proof -
  have len: "length (steps_of wm_2mm_eroded) = 3" "length (steps_of wm_2mm) = 2"
    by (simp_all add: steps_eroded steps_wm_2mm)
  have full: "full_mask_key wm_2mm = ''WhiteMatter_2mm''"
    "full_mask_key wm_2mm_eroded = ''WhiteMatter_2mm_E''"
    by (simp_all add: full_mask_key_def steps_wm_2mm steps_eroded keys_wm_2mm keys_eroded)
  have tr: "tissue_resolves wm_2mm example_state"
    by (simp add: tissue_resolves_def lookup_wm_2mm example_state_def lookup_example_pool)
  have pool0: "pool example_state ''WhiteMatter_2mm'' = None"
    "pool example_state ''WhiteMatter'' \<noteq> None"
    by (simp_all add: example_state_def lookup_example_pool)
  have none0: "created_for ''WhiteMatter_2mm'' example_state = []"
    "created_for ''WhiteMatter'' example_state = []"
    by (simp_all add: created_for_def example_state_def)
  have keys: "\<forall>i<2. key_upto wm_2mm_eroded (Suc i) = key_upto wm_2mm (Suc i)"
    by (simp add: less_2_cases_iff keys_eroded keys_wm_2mm)
  have c3: "\<forall>i<length (steps_of wm_2mm). pool state_after_first (key_upto wm_2mm (Suc i)) \<noteq> None"
    by (simp add: len less_2_cases_iff keys_wm_2mm pool_after_first)
  have upto0: "process_steps example_fmt wm_2mm selector_2mm True [0..<Suc 0] example_state
      = (None, example_state)"
    by (simp add: first_step0)
  obtain r st where third:
    "generate_summarize_tissue_mask example_fmt state_after_first wm_2mm selector_2mm False = (r, st)"
    by (cases "generate_summarize_tissue_mask example_fmt state_after_first wm_2mm selector_2mm False")
  note two = cache_grows_and_is_reused [OF first_call second_call, of 2, unfolded full len]
  note all_in = two [THEN conjunct2, THEN conjunct2, THEN conjunct2, THEN conjunct2, THEN conjunct2, THEN conjunct2, THEN conjunct1]
    and once = two [THEN conjunct2, THEN conjunct2, THEN conjunct2, THEN conjunct2, THEN conjunct2, THEN conjunct2, THEN conjunct2, THEN conjunct1]
    and shared_prefix = two [THEN conjunct2, THEN conjunct2, THEN conjunct2, THEN conjunct2, THEN conjunct2, THEN conjunct2, THEN conjunct2, THEN conjunct2, THEN conjunct2, THEN conjunct1]
    and before_next = two [THEN conjunct2, THEN conjunct2, THEN conjunct2, THEN conjunct2, THEN conjunct2, THEN conjunct2, THEN conjunct2, THEN conjunct2, THEN conjunct2, THEN conjunct2, THEN conjunct2]
  have grow: "pool example_state \<subseteq>\<^sub>m pool state_after_first"
    "pool state_after_first \<subseteq>\<^sub>m pool state_after_second"
    using two by simp_all
  have cached: "\<forall>i<2. pool state_after_first (key_upto wm_2mm (Suc i)) \<noteq> None"
    using tr all_in by simp
  then have wm: "pool state_after_first ''WhiteMatter'' \<noteq> None"
    using keys_wm_2mm(2) by (metis pos2)
  have built: "\<exists>m out cs. pool state_after_first ''WhiteMatter_2mm'' = Some (Resource m out)
      \<and> pool state_after_second ''WhiteMatter_2mm'' = Some (Resource m out)
      \<and> created_for ''WhiteMatter_2mm'' state_after_first
          = created_for ''WhiteMatter_2mm'' example_state @ cs
      \<and> created_for ''WhiteMatter_2mm'' state_after_second
          = created_for ''WhiteMatter_2mm'' state_after_first
      \<and> count_list cs (''WhiteMatter_2mm'', m) = 1"
    using once pool0(1) pool_after_first(2) by blast
  then have art: "pool state_after_second ''WhiteMatter_2mm'' = Some (Resource mask_to_epi_wm ''out_file'')"
    and one: "count_list (created_for ''WhiteMatter_2mm'' state_after_second)
        (''WhiteMatter_2mm'', mask_to_epi_wm) = 1"
    using pool_after_first(2) none0(1) by auto
  have hyp: "Inr ''WhiteMatter_2mm'' = Inr ''WhiteMatter_2mm''
      \<and> tissue_resolves wm_2mm example_state \<and> (2::nat) \<le> 2 \<and> (2::nat) \<le> 3
      \<and> (\<forall>i<2. key_upto wm_2mm_eroded (Suc i) = key_upto wm_2mm (Suc i))"
    using tr keys by simp
  note shared = mp [OF shared_prefix hyp]
  have rest: "(Inr ''WhiteMatter_2mm_E'', state_after_second) =
             (case process_steps example_fmt wm_2mm_eroded selector_2mm True [2..<3] state_after_first of
                (Some e, s) \<Rightarrow> (Inl e, s)
              | (None, s) \<Rightarrow> (Inr ''WhiteMatter_2mm_E'', s))"
    using shared [THEN conjunct2] by simp
  have base: "created_for ''WhiteMatter'' state_after_second = []"
    using shared [THEN conjunct1, rule_format, of 0] pool0(2) none0(2) by (simp add: keys_eroded)
  have next1: "(Inr ''WhiteMatter_2mm'', state_after_first) =
        (case process_steps example_fmt wm_2mm selector_2mm True [1..<2] example_state of
           (Some e, s) \<Rightarrow> (Inl e, s)
         | (None, s) \<Rightarrow> (Inr ''WhiteMatter_2mm'', s))"
    using before_next [rule_format, of 0 example_state] tr upto0 by simp
  from cache_grows_and_is_reused [OF first_call third, of 0] c3
  have "st = state_after_first \<and> r = Inr (full_mask_key wm_2mm)" by blast
  with third full have again:
    "generate_summarize_tissue_mask example_fmt state_after_first wm_2mm selector_2mm False
       = (Inr ''WhiteMatter_2mm'', state_after_first)" by simp
  from first_call second_call grow wm art one base rest next1 again show ?thesis by blast
qed

lemma lookup_white_matter_only:
  "white_matter_only ''tissue'' = Some ''WhiteMatter''" "white_matter_only ''resolution'' = None"
  "white_matter_only ''erosion'' = None"
  by (simp_all add: white_matter_only_def)

text \<open>
  The claim as stated fails: with an empty pool and the only step
  \<^verbatim>\<open>tissue = WhiteMatter\<close> the call returns the key \<^verbatim>\<open>WhiteMatter\<close> and leaves the
  state as it was, so a second call with the same prefix does the same: there is no
  cached artifact for the prefix and no node was constructed for it.
\<close>

theorem unbuilt_prefix_counterexample:
  "generate_summarize_tissue_mask example_fmt empty_state white_matter_only Map.empty True
     = (Inr ''WhiteMatter'', empty_state)
   \<and> pool empty_state ''WhiteMatter'' = None \<and> created empty_state = []
   \<and> connections empty_state = []"
proof -
  have s: "steps_of white_matter_only = [''tissue'']"
    by (simp add: steps_of_def lookup_white_matter_only)
  have k: "key_upto white_matter_only (Suc 0) = ''WhiteMatter''"
    by (simp add: key_upto_def s lookup_white_matter_only)
  have p: "process_step example_fmt white_matter_only Map.empty True 0 empty_state
      = (None, empty_state)"
    by (simp add: process_step_def k s step_actions_def tissue_actions_def startswith_def
        empty_state_def)
  have e: "pool empty_state ''WhiteMatter'' = None \<and> created empty_state = []
      \<and> connections empty_state = []"
    by (simp add: empty_state_def)
  show ?thesis
    by (simp add: generate_summarize_tissue_mask_def s full_mask_key_def k p e)
qed

text \<open>
  Why the count of constructions is stated for keys that a call put into the pool: a
  builder that raises after it has constructed its node leaves the key out of the pool,
  and the next call for the key constructs the node again. Here the selector of the
  first call has no \<^verbatim>\<open>threshold\<close>.
\<close>

lemma raised_builder_runs_again:
  "generate_summarize_tissue_mask example_fmt functional_state variance_only Map.empty True
     = (Inl (KeyError ''threshold''), state_after_raise)
   \<and> pool state_after_raise ''FunctionalVariance'' = None
   \<and> generate_summarize_tissue_mask example_fmt state_after_raise variance_only selector_variance True
     = (Inr ''FunctionalVariance'', state_after_retry)
   \<and> count_list (created state_after_retry) (''FunctionalVariance'', variance_node) = 2"
proof -
  have l: "variance_only ''tissue'' = Some ''FunctionalVariance''"
    "variance_only ''resolution'' = None" "variance_only ''erosion'' = None"
    by (simp_all add: variance_only_def)
  have s: "steps_of variance_only = [''tissue'']"
    by (simp add: steps_of_def l)
  have k: "key_upto variance_only (Suc 0) = ''FunctionalVariance''"
    by (simp add: key_upto_def s l)
  have nk: "node_key ''FunctionalVariance'' = ''FunctionalVariance''"
    by (simp add: node_key_def is_word_def)
  have fp: "functional_pool ''FunctionalVariance'' = None"
    "functional_pool ''Functional'' = Some (Resource inputspec ''functional_file_path'')"
    "functional_pool ''GlobalSignal'' = Some (Resource inputspec ''global_signal_mask_file_path'')"
    by (simp_all add: functional_pool_def)
  have p1: "process_step example_fmt variance_only Map.empty True 0 functional_state
      = (Some (KeyError ''threshold''), state_after_raise)"
    by (simp add: process_step_def k s step_actions_def tissue_actions_def startswith_def
        variance_actions_def nk Let_def functional_state_def fp state_after_raise_def
        variance_node_def)
  have p2: "process_step example_fmt variance_only selector_variance True 0 state_after_raise
      = (None, state_after_retry)"
    by (simp add: process_step_def k s step_actions_def tissue_actions_def startswith_def
        variance_actions_def nk Let_def fp state_after_raise_def state_after_retry_def
        variance_node_def selector_variance_def)
  have e: "pool state_after_raise ''FunctionalVariance'' = None"
    "count_list (created state_after_retry) (''FunctionalVariance'', variance_node) = 2"
    by (simp_all add: state_after_raise_def state_after_retry_def fp)
  show ?thesis
    by (simp add: generate_summarize_tissue_mask_def s full_mask_key_def k p1 p2 e)
qed

lemma steps_with_tissue:
  "d ''tissue'' = Some t \<Longrightarrow> steps_of d ! 0 = ''tissue'' \<and> key_upto d (Suc 0) = t"
  by (simp add: steps_of_def key_upto_def)

text \<open>
  C3 (as the code has it). For a tissue key that neither starts with
  \<^verbatim>\<open>FunctionalVariance\<close> nor is \<^verbatim>\<open>CerebrospinalFluid\<close>, the tissue step raises nothing
  and leaves the workflow and the pool as they were, whether the key is in the pool or
  not; a descriptor with this step alone makes the whole call return the tissue key with
  the state unchanged.
\<close>

theorem unmatched_tissue_step_is_silent:
  assumes t: "d ''tissue'' = Some t"
    and unmatched: "\<not> startswith t ''FunctionalVariance''" "t \<noteq> ''CerebrospinalFluid''"
  shows "process_step fmt d sel ants 0 st = (None, st)
    \<and> (d ''resolution'' = None \<and> d ''erosion'' = None \<longrightarrow>
         generate_summarize_tissue_mask fmt st d sel ants = (Inr t, st))"
proof -
  have step: "process_step fmt d sel ants 0 st = (None, st)"
    using steps_with_tissue [where d = d, OF t] unmatched
    by (simp add: process_step_def step_actions_def tissue_actions_def)
  have "generate_summarize_tissue_mask fmt st d sel ants = (Inr t, st)"
    if "d ''resolution'' = None" "d ''erosion'' = None"
  proof -
    have s: "steps_of d = [''tissue'']" using t that by (simp add: steps_of_def)
    then have "full_mask_key d = t" using steps_with_tissue [where d = d, OF t]
      by (simp add: full_mask_key_def)
    with s step show ?thesis by (simp add: generate_summarize_tissue_mask_def)
  qed
  with step show ?thesis by blast
qed

theorem unmatched_tissue_step_is_silent_witness:
  "process_step example_fmt wm_2mm selector_2mm True 0 empty_state = (None, empty_state)
   \<and> generate_summarize_tissue_mask example_fmt example_state grey_matter_only selector_2mm False
       = (Inr ''GreyMatter'', example_state)"
proof -
  have g: "grey_matter_only ''tissue'' = Some ''GreyMatter''"
    "grey_matter_only ''resolution'' = None \<and> grey_matter_only ''erosion'' = None"
    by (simp_all add: grey_matter_only_def)
  have u: "\<not> startswith ''GreyMatter'' ''FunctionalVariance''" "''GreyMatter'' \<noteq> ''CerebrospinalFluid''"
    "\<not> startswith ''WhiteMatter'' ''FunctionalVariance''" "''WhiteMatter'' \<noteq> ''CerebrospinalFluid''"
    by (simp_all add: startswith_def)
  from unmatched_tissue_step_is_silent [where d = grey_matter_only and fmt = example_fmt
        and sel = selector_2mm and ants = False and st = example_state, OF g(1) u(1,2)]
    unmatched_tissue_step_is_silent [where d = wm_2mm and fmt = example_fmt
        and sel = selector_2mm and ants = True and st = empty_state, OF lookup_wm_2mm(1) u(3,4)]
    g(2)
  show ?thesis by blast
qed

text \<open>
  The claim as stated fails: for \<^verbatim>\<open>tissue = GreyMatter\<close> on an empty pool the call
  returns normally.
\<close>

theorem unmatched_tissue_raises_nothing_counterexample:
  "generate_summarize_tissue_mask example_fmt empty_state grey_matter_only Map.empty True
     = (Inr ''GreyMatter'', empty_state)"
proof -
  have g: "grey_matter_only ''tissue'' = Some ''GreyMatter''"
    "grey_matter_only ''resolution'' = None" "grey_matter_only ''erosion'' = None"
    by (simp_all add: grey_matter_only_def)
  have s: "steps_of grey_matter_only = [''tissue'']"
    by (simp add: steps_of_def g)
  have k: "key_upto grey_matter_only (Suc 0) = ''GreyMatter''"
    by (simp add: key_upto_def s g)
  have p: "process_step example_fmt grey_matter_only Map.empty True 0 empty_state
      = (None, empty_state)"
    by (simp add: process_step_def k s step_actions_def tissue_actions_def startswith_def
        empty_state_def)
  show ?thesis
    by (simp add: generate_summarize_tissue_mask_def s full_mask_key_def k p)
qed

section \<open>Properties of the selector names\<close>

lemma white_matter_resolution_text: "resolution_text example_formats white_matter_descriptor = Inr (Some ''2.00E'')"
  by (simp add: resolution_text_def white_matter_descriptor_def bind_err_def apply_format_def
      example_formats_def)

lemma white_matter_parts:
  "summary_params example_formats white_matter_descriptor = Inr ''M''"
  "derivative_params white_matter_descriptor = Inr []"
  by (simp_all add: summary_params_def derivative_params_def methods_def bind_err_def
      white_matter_descriptor_def)

lemma white_matter_token: "canonicalize example_formats [(''WhiteMatter'', white_matter_descriptor)] = Inr ''WM-M''"
  by (simp add: canonicalize_def regs_def pieces_of_def tissues_def tissue_pieces_def white_matter_resolution_text
      white_matter_parts token_def bind_err_def)

lemma typed_example: "typed_thresholds [dvars_sd, fd_half] = Inr [(''DVARS'', dvars_sd), (''FD'', fd_half)]"
  by (simp add: bind_err_def dvars_sd_def fd_half_def)

lemma sorted_example: "sorted_reverse [(''DVARS'', dvars_sd), (''FD'', fd_half)] = [(''FD'', fd_half), (''DVARS'', dvars_sd)]"
  by (simp add: sorted_reverse_def)

lemma pieces_example: "threshold_pieces example_formats [(''FD'', fd_half), (''DVARS'', dvars_sd)] = Inr [''FD0.5'', ''DV1.5SD'']"
  by (simp add: threshold_piece_def thresholds_def bind_err_def fd_half_def dvars_sd_def
      apply_format_def example_formats_def)

lemma censor_head:
  "map_of (censor_descriptor ths) ''method'' = Some (PStr ''Kill'')"
  "map_of censoring ''Kill'' = Some ''K''"
  "map_of (censor_descriptor ths) ''thresholds'' = Some (PList ths)"
  by (simp_all add: censor_descriptor_def censoring_def)

lemma trs_example:
  "trs_text example_formats (PDict (censor_descriptor ths)) ''number_of_previous_trs_to_remove''
     = Inr ''1''"
  "trs_text example_formats (PDict (censor_descriptor ths)) ''number_of_subsequent_trs_to_remove''
     = Inr ''2''"
  by (simp_all add: trs_text_def censor_descriptor_def bind_err_def apply_format_def
      example_formats_def)

lemma censor_example: "censor_pieces example_formats ''C'' (PDict (censor_descriptor [dvars_sd, fd_half]))
    = Inr [''C'', ''K'', ''1+2'', ''FD0.5'', ''DV1.5SD'']"
  by (simp add: censor_pieces_def censor_head trs_example typed_example sorted_example pieces_example bind_err_def
      del: typed_thresholds.simps threshold_pieces.simps)

lemma motion_parts: "derivative_params motion_descriptor = Inr ''SD''"
  by (simp add: derivative_params_def motion_descriptor_def bind_err_def)

lemma motion_censor_example: "canonicalize example_formats
     [(''Censor'', PDict (censor_descriptor [dvars_sd, fd_half])), (''Motion'', motion_descriptor)]
   = Inr ''M-SD_C-K-1+2-FD0.5-DV1.5SD''"
  by (simp add: canonicalize_def regs_def pieces_of_def tissues_def censor_example motion_parts
      token_def bind_err_def)

lemma representations_cong:
  assumes "map_of sel' = map_of sel"
  shows "representations F sel' table = representations F sel table"
proof (induction table)
  case Nil
  show ?case by simp
next
  case (Cons a table)
  obtain r code where a: "a = (r, code)" by (cases a)
  show ?case unfolding a using Cons.IH by (simp add: assms split: option.splits)
qed

lemma canonicalize_cong:
  assumes "map_of sel' = map_of sel"
  shows "canonicalize F sel' = canonicalize F sel"
  unfolding canonicalize_def representations_cong [OF assms] ..

lemma map_of_permuted:
  assumes "distinct (map fst sel)" and "distinct (map fst sel')" and "set sel' = set sel"
  shows "map_of sel' = map_of sel"
  using assms map_of_inject_set [of sel' sel] by blast

lemma typed_thresholds_Cons:
  "typed_thresholds (st # sts) =
     (case threshold_type st of
        Inl e \<Rightarrow> Inl e
      | Inr n \<Rightarrow> (case typed_thresholds sts of Inl e \<Rightarrow> Inl e | Inr rest \<Rightarrow> Inr ((n, st) # rest)))"
  by (simp add: bind_err_def del: threshold_type.simps split: sum.splits)

lemma typed_thresholds_Inr:
  "typed_thresholds sts = Inr ty \<longleftrightarrow>
     (\<forall>st \<in> set sts. \<exists>n. threshold_type st = Inr n) \<and> ty = map (\<lambda>st. (type_name st, st)) sts"
proof (induction sts arbitrary: ty)
  case Nil
  show ?case by auto
next
  case (Cons st sts)
  show ?case
  proof (cases "threshold_type st")
    case (Inl e)
    then show ?thesis unfolding typed_thresholds_Cons by auto
  next
    case n: (Inr n)
    then have tn: "type_name st = n" by (simp add: type_name_def del: threshold_type.simps)
    show ?thesis
    proof (cases "typed_thresholds sts")
      case (Inl e)
      with Cons.IH [of "map (\<lambda>st. (type_name st, st)) sts"]
      have "\<not> (\<forall>st \<in> set sts. \<exists>n. threshold_type st = Inr n)" by simp
      with Inl n show ?thesis unfolding typed_thresholds_Cons by auto
    next
      case rest: (Inr r)
      with Cons.IH [of r]
      have "(\<forall>st \<in> set sts. \<exists>n. threshold_type st = Inr n)"
        and "r = map (\<lambda>st. (type_name st, st)) sts" by simp_all
      with rest n tn show ?thesis unfolding typed_thresholds_Cons by auto
    qed
  qed
qed

lemma filter_same_key:
  assumes "distinct (map f xs)" and "k \<in> set xs"
  shows "filter (\<lambda>x. f k = f x) xs = [k]"
  using assms
proof (induction xs)
  case Nil
  then show ?case by simp
next
  case (Cons x xs)
  show ?case
  proof (cases "k = x")
    case True
    with Cons.prems(1) have "filter (\<lambda>y. f k = f y) xs = []"
      by (auto simp: filter_empty_conv)
    with True show ?thesis by simp
  next
    case False
    with Cons.prems have k: "k \<in> set xs" and d: "distinct (map f xs)" and "f x \<notin> f ` set xs"
      by auto
    then have "f k \<noteq> f x" by (metis imageI)
    with Cons.IH [OF d k] show ?thesis by simp
  qed
qed

lemma sort_key_permuted:
  assumes "mset ys = mset xs" and "distinct (map f xs)"
  shows "sort_key f ys = sort_key f xs"
proof (rule properties_for_sort_key)
  show "mset (sort_key f xs) = mset ys" using assms(1) by simp
  have "mset (map f ys) = mset (map f xs)" using assms(1) by simp
  from mset_eq_imp_distinct_iff [OF this] assms(2)
  have dy: "distinct (map f ys)" by simp
  have "mset (map f (sort_key f xs)) = mset (map f xs)" by simp
  from mset_eq_imp_distinct_iff [OF this] assms(2)
  have ds: "distinct (map f (sort_key f xs))" by simp
  show "filter (\<lambda>x. f k = f x) (sort_key f xs) = filter (\<lambda>x. f k = f x) ys"
    if "k \<in> set (sort_key f xs)" for k
  proof -
    have "set ys = set xs" using assms(1) by (rule mset_eq_setD)
    with that have "k \<in> set ys" by simp
    with dy have "filter (\<lambda>x. f k = f x) ys = [k]" by (intro filter_same_key)
    moreover from that ds have "filter (\<lambda>x. f k = f x) (sort_key f xs) = [k]"
      by (intro filter_same_key)
    ultimately show ?thesis by simp
  qed
  show "sorted (map f (sort_key f xs))" by simp
qed

lemma sorted_reverse_permuted:
  assumes "mset ys = mset xs" and "distinct (map fst xs)"
  shows "sorted_reverse ys = sorted_reverse xs"
proof -
  have "sort_key fst (rev ys) = sort_key fst (rev xs)"
    using assms by (intro sort_key_permuted) (simp_all add: rev_map [symmetric])
  then show ?thesis by (simp add: sorted_reverse_def)
qed

lemma typed_thresholds_permuted:
  assumes "typed_thresholds ths = Inr ty" and "mset ths' = mset ths"
  shows "\<exists>ty'. typed_thresholds ths' = Inr ty' \<and> mset ty' = mset ty"
proof -
  from assms(1) have ok: "\<forall>st \<in> set ths. \<exists>n. threshold_type st = Inr n"
    and ty: "ty = map (\<lambda>st. (type_name st, st)) ths"
    by (simp_all add: typed_thresholds_Inr)
  from assms(2) have "set ths' = set ths" by (rule mset_eq_setD)
  with ok have "typed_thresholds ths' = Inr (map (\<lambda>st. (type_name st, st)) ths')"
    by (simp add: typed_thresholds_Inr)
  moreover have "mset (map (\<lambda>st. (type_name st, st)) ths') = mset ty"
    using assms(2) ty by simp
  ultimately show ?thesis by blast
qed

lemma bind_err_simps: "bind_err (Inr v) f = f v" "bind_err (Inl e) f = Inl e"
  by (simp_all add: bind_err_def)

lemma censor_pieces_permuted:
  assumes agree: "\<forall>k. k \<noteq> ''thresholds'' \<longrightarrow> map_of c' k = map_of c k"
    and ths: "map_of c ''thresholds'' = Some (PList ths)"
             "map_of c' ''thresholds'' = Some (PList ths')"
    and perm: "mset ths' = mset ths"
    and typed: "typed_thresholds ths = Inr ty" and types: "distinct (map fst ty)"
  shows "censor_pieces F code (PDict c') = censor_pieces F code (PDict c)"
proof -
  from typed_thresholds_permuted [OF typed perm] obtain ty'
    where ty': "typed_thresholds ths' = Inr ty'" and m: "mset ty' = mset ty" by blast
  have s: "sorted_reverse ty' = sorted_reverse ty"
    using m types by (rule sorted_reverse_permuted)
  have m1: "map_of c' ''method'' = map_of c ''method''"
    and m2: "map_of c' ''number_of_previous_trs_to_remove''
              = map_of c ''number_of_previous_trs_to_remove''"
    and m3: "map_of c' ''number_of_subsequent_trs_to_remove''
              = map_of c ''number_of_subsequent_trs_to_remove''"
    using agree by simp_all
  show ?thesis
    by (simp add: censor_pieces_def trs_text_def m1 m2 m3 ths typed ty' s bind_err_simps)
qed

lemma pieces_of_censor: "pieces_of F ''Censor'' code s = censor_pieces F code s"
  by (simp add: pieces_of_def tissues_def)

lemma representations_censor:
  assumes others: "\<forall>r. r \<noteq> ''Censor'' \<longrightarrow> map_of sel' r = map_of sel r"
    and c: "map_of sel ''Censor'' = Some s" "map_of sel' ''Censor'' = Some s'"
    and same: "\<And>code. censor_pieces F code s' = censor_pieces F code s"
  shows "representations F sel' table = representations F sel table"
proof (induction table)
  case Nil
  show ?case by simp
next
  case (Cons a table)
  obtain r code where a: "a = (r, code)" by (cases a)
  show ?case
  proof (cases "r = ''Censor''")
    case True
    with Cons.IH show ?thesis unfolding a by (simp add: c pieces_of_censor same)
  next
    case False
    with others have "map_of sel' r = map_of sel r" by simp
    with Cons.IH show ?thesis unfolding a by (simp split: option.splits)
  qed
qed

text \<open>
  C4 (as the code has it). The output depends on the selection only through its
  content: two selections with the same keys and descriptors in a different insertion
  order give the same result, and so do two selections that differ only in the order of
  the thresholds of the censor, provided every threshold has a type and no two
  thresholds have the same type. Being a function of the selection and of nothing else,
  two calls on the same selection give the same string.
\<close>

theorem canonicalize_order_independent:
  "(distinct (map fst sel) \<and> distinct (map fst sel') \<and> set sel' = set sel \<longrightarrow>
      canonicalize F sel' = canonicalize F sel)
   \<and> ((\<forall>r. r \<noteq> ''Censor'' \<longrightarrow> map_of sel' r = map_of sel r)
       \<and> map_of sel ''Censor'' = Some (PDict c) \<and> map_of sel' ''Censor'' = Some (PDict c')
       \<and> (\<forall>k. k \<noteq> ''thresholds'' \<longrightarrow> map_of c' k = map_of c k)
       \<and> map_of c ''thresholds'' = Some (PList ths)
       \<and> map_of c' ''thresholds'' = Some (PList ths')
       \<and> mset ths' = mset ths
       \<and> typed_thresholds ths = Inr ty \<and> distinct (map fst ty) \<longrightarrow>
      canonicalize F sel' = canonicalize F sel)"
proof (intro conjI impI)
  assume "distinct (map fst sel) \<and> distinct (map fst sel') \<and> set sel' = set sel"
  then have "map_of sel' = map_of sel" by (simp add: map_of_permuted)
  then show "canonicalize F sel' = canonicalize F sel" by (rule canonicalize_cong)
next
  assume h: "(\<forall>r. r \<noteq> ''Censor'' \<longrightarrow> map_of sel' r = map_of sel r)
       \<and> map_of sel ''Censor'' = Some (PDict c) \<and> map_of sel' ''Censor'' = Some (PDict c')
       \<and> (\<forall>k. k \<noteq> ''thresholds'' \<longrightarrow> map_of c' k = map_of c k)
       \<and> map_of c ''thresholds'' = Some (PList ths)
       \<and> map_of c' ''thresholds'' = Some (PList ths')
       \<and> mset ths' = mset ths
       \<and> typed_thresholds ths = Inr ty \<and> distinct (map fst ty)"
  then have same: "\<And>code. censor_pieces F code (PDict c') = censor_pieces F code (PDict c)"
    by (intro censor_pieces_permuted [where ths = ths and ths' = ths' and ty = ty]) simp_all
  from h have "representations F sel' regs = representations F sel regs"
    by (intro representations_censor [where s = "PDict c" and s' = "PDict c'"] same) simp_all
  then show "canonicalize F sel' = canonicalize F sel" by (simp add: canonicalize_def)
qed

theorem canonicalize_order_independent_witness:
  "canonicalize example_formats
     [(''Motion'', motion_descriptor), (''Censor'', PDict (censor_descriptor [dvars_sd, fd_half]))]
     = Inr ''M-SD_C-K-1+2-FD0.5-DV1.5SD''
   \<and> canonicalize example_formats
     [(''Censor'', PDict (censor_descriptor [fd_half, dvars_sd])), (''Motion'', motion_descriptor)]
     = Inr ''M-SD_C-K-1+2-FD0.5-DV1.5SD''"
proof -
  let ?sel = "[(''Censor'', PDict (censor_descriptor [dvars_sd, fd_half])),
               (''Motion'', motion_descriptor)]"
  let ?sel1 = "[(''Motion'', motion_descriptor),
                (''Censor'', PDict (censor_descriptor [dvars_sd, fd_half]))]"
  let ?sel2 = "[(''Censor'', PDict (censor_descriptor [fd_half, dvars_sd])),
                (''Motion'', motion_descriptor)]"
  have keys: "distinct (map fst ?sel) \<and> distinct (map fst ?sel1) \<and> set ?sel1 = set ?sel"
    by auto
  have part2: "(\<forall>r. r \<noteq> ''Censor'' \<longrightarrow> map_of ?sel2 r = map_of ?sel r)
       \<and> map_of ?sel ''Censor'' = Some (PDict (censor_descriptor [dvars_sd, fd_half]))
       \<and> map_of ?sel2 ''Censor'' = Some (PDict (censor_descriptor [fd_half, dvars_sd]))
       \<and> (\<forall>k. k \<noteq> ''thresholds'' \<longrightarrow>
            map_of (censor_descriptor [fd_half, dvars_sd]) k
              = map_of (censor_descriptor [dvars_sd, fd_half]) k)
       \<and> map_of (censor_descriptor [dvars_sd, fd_half]) ''thresholds''
            = Some (PList [dvars_sd, fd_half])
       \<and> map_of (censor_descriptor [fd_half, dvars_sd]) ''thresholds''
            = Some (PList [fd_half, dvars_sd])
       \<and> mset [fd_half, dvars_sd] = mset [dvars_sd, fd_half]
       \<and> typed_thresholds [dvars_sd, fd_half] = Inr [(''DVARS'', dvars_sd), (''FD'', fd_half)]
       \<and> distinct (map fst [(''DVARS'', dvars_sd), (''FD'', fd_half)])"
    by (simp add: censor_descriptor_def typed_example del: typed_thresholds.simps)
  from canonicalize_order_independent [of ?sel ?sel1 example_formats] keys
  have a: "canonicalize example_formats ?sel1 = canonicalize example_formats ?sel" by blast
  from canonicalize_order_independent [of ?sel ?sel2 example_formats
      "censor_descriptor [dvars_sd, fd_half]" "censor_descriptor [fd_half, dvars_sd]"
      "[dvars_sd, fd_half]" "[fd_half, dvars_sd]" "[(''DVARS'', dvars_sd), (''FD'', fd_half)]"]
    part2
  have b: "canonicalize example_formats ?sel2 = canonicalize example_formats ?sel" by blast
  from a b motion_censor_example show ?thesis by simp
qed

text \<open>
  The claim as stated fails: the sort of line 688 compares the types only and is stable,
  so two thresholds of the same type come out in the order of the list.
\<close>

theorem same_type_thresholds_counterexample:
  "canonicalize example_formats [(''Censor'', PDict (censor_descriptor [fd_sd15, fd_sd]))]
     = Inr ''C-K-1+2-FD1.5SD-FD2SD''
   \<and> canonicalize example_formats [(''Censor'', PDict (censor_descriptor [fd_sd, fd_sd15]))]
     = Inr ''C-K-1+2-FD2SD-FD1.5SD''
   \<and> mset [fd_sd, fd_sd15] = mset [fd_sd15, fd_sd]"
proof -
  have t: "typed_thresholds [fd_sd15, fd_sd] = Inr [(''FD'', fd_sd15), (''FD'', fd_sd)]"
    "typed_thresholds [fd_sd, fd_sd15] = Inr [(''FD'', fd_sd), (''FD'', fd_sd15)]"
    by (simp_all add: bind_err_def fd_sd_def fd_sd15_def)
  have s: "sorted_reverse [(''FD'', fd_sd15), (''FD'', fd_sd)] = [(''FD'', fd_sd15), (''FD'', fd_sd)]"
    "sorted_reverse [(''FD'', fd_sd), (''FD'', fd_sd15)] = [(''FD'', fd_sd), (''FD'', fd_sd15)]"
    by (simp_all add: sorted_reverse_def)
  have p: "threshold_pieces example_formats [(''FD'', fd_sd15), (''FD'', fd_sd)]
             = Inr [''FD1.5SD'', ''FD2SD'']"
    "threshold_pieces example_formats [(''FD'', fd_sd), (''FD'', fd_sd15)]
             = Inr [''FD2SD'', ''FD1.5SD'']"
    by (simp_all add: threshold_piece_def thresholds_def bind_err_def fd_sd_def fd_sd15_def)
  have c: "censor_pieces example_formats ''C'' (PDict (censor_descriptor [fd_sd15, fd_sd]))
      = Inr [''C'', ''K'', ''1+2'', ''FD1.5SD'', ''FD2SD'']"
    "censor_pieces example_formats ''C'' (PDict (censor_descriptor [fd_sd, fd_sd15]))
      = Inr [''C'', ''K'', ''1+2'', ''FD2SD'', ''FD1.5SD'']"
    by (simp_all add: censor_pieces_def censor_head trs_example t s p bind_err_def
        del: typed_thresholds.simps threshold_pieces.simps)
  have m: "mset [fd_sd, fd_sd15] = mset [fd_sd15, fd_sd]" by (simp add: add.commute)
  show ?thesis
    by (simp add: canonicalize_def regs_def pieces_of_def tissues_def c token_def bind_err_def m)
qed

text \<open>
  C7. The token of a tissue type should hold the resolution as \<^verbatim>\<open>"%.2f"\<close>, followed by
  \<^verbatim>\<open>E\<close> for an eroded mask, between the code and the summary. Lines 617 to 620 compute
  it in \<^verbatim>\<open>res\<close>, and lines 622 and 623 never add \<^verbatim>\<open>res\<close> to the pieces: for white
  matter at resolution 2 with an eroded mask and the summary \<^verbatim>\<open>Mean\<close> the text
  \<^verbatim>\<open>2.00E\<close> is computed and the token is \<^verbatim>\<open>WM-M\<close>.
\<close>

theorem tissue_token_drops_resolution:
  "canonicalize example_formats [(''WhiteMatter'', white_matter_descriptor)] = Inr ''WM-M''
   \<and> resolution_text example_formats white_matter_descriptor = Inr (Some ''2.00E'')"
  by (simp add: white_matter_token white_matter_resolution_text)

end
